theory Spec2Isabelle
  imports Main
begin

section \<open>The build triggerer of the drone server\<close>

text \<open>
  A shallow embedding of \<^verbatim>\<open>trigger/trigger.go\<close> (the function \<^verbatim>\<open>Trigger\<close>, its
  helpers \<^verbatim>\<open>trunc\<close> and \<^verbatim>\<open>createBuildError\<close>) and of
  \<^verbatim>\<open>plugin/webhook/webhook.go\<close> (the method \<^verbatim>\<open>Send\<close>).

  Go strings are byte sequences: they are HOL strings, one \<^typ>\<open>char\<close> per byte. The
  signed 64-bit fields (identifiers, counters, Unix times) are \<^typ>\<open>int\<close>: the code
  copies them and never computes with them, apart from \<^verbatim>\<open>i + 1\<close> on a slice index.
\<close>

subsection \<open>Errors and the outcome of a collaborator call\<close>

text \<open>A Go \<^verbatim>\<open>error\<close> value; \<^verbatim>\<open>err.Error()\<close> is its message.\<close>

datatype error = GoError string

fun Error_message :: "error \<Rightarrow> string" where
  "Error_message (GoError m) = m"

text \<open>
  What a call of a collaborator (an interface value held by the triggerer) can do: return a
  value with a nil error, return a non-nil error, or panic. The panic is a branch of its own
  because \<^verbatim>\<open>Trigger\<close> installs a deferred \<^verbatim>\<open>recover\<close> (lines 78-85).
\<close>

datatype 'a outcome = Ok 'a | Fail error | Panic

subsection \<open>The data model (package core and package yaml, as far as the code reads it)\<close>

text \<open>
  The declarations of package \<^verbatim>\<open>core\<close> and of the library \<^verbatim>\<open>drone-yaml\<close> are not
  among the sources. Each record has the fields that the code under study reads or writes,
  under the Go name prefixed by the name of the struct. A struct reached through a pointer
  (the author of a commit, the platform of a pipeline) is taken to be there.
\<close>

record hook =
  Hook_Parent :: int
  Hook_Trigger :: string
  Hook_Event :: string
  Hook_Action :: string
  Hook_Link :: string
  Hook_Title :: string
  Hook_Message :: string
  Hook_Before :: string
  Hook_After :: string
  Hook_Ref :: string
  Hook_Fork :: string
  Hook_Source :: string
  Hook_Target :: string
  Hook_Author :: string
  Hook_AuthorName :: string
  Hook_AuthorEmail :: string
  Hook_AuthorAvatar :: string
  Hook_Deployment :: string
  Hook_Sender :: string
  Hook_Params :: "string \<rightharpoonup> string"

record repository =
  Repo_ID :: int
  Repo_UserID :: int
  Repo_Slug :: string
  Repo_Config :: string
  Repo_Counter :: int
  Repo_Trusted :: bool
  Repo_Protected :: bool
  Repo_IgnoreForks :: bool
  Repo_IgnorePulls :: bool
  Repo_Secret :: string

record user =
  User_ID :: int
  User_Login :: string
  User_Active :: bool

record committer =
  Committer_Name :: string
  Committer_Email :: string
  Committer_Avatar :: string

record commit =
  Commit_Message :: string
  Commit_Author :: committer

record config =
  Config_Data :: string

text \<open>
  The statuses that the triggerer gives to a build or a stage. In Go they are string
  constants of package \<^verbatim>\<open>core\<close>; the code only assigns and compares them.
\<close>

datatype status = StatusPending | StatusWaiting | StatusBlocked | StatusError

record build =
  Build_RepoID :: int
  Build_Trigger :: string
  Build_Number :: int
  Build_Parent :: int
  Build_Status :: status
  Build_Error :: string
  Build_Event :: string
  Build_Action :: string
  Build_Link :: string
  Build_Title :: string
  Build_Message :: string
  Build_Before :: string
  Build_After :: string
  Build_Ref :: string
  Build_Fork :: string
  Build_Source :: string
  Build_Target :: string
  Build_Author :: string
  Build_AuthorName :: string
  Build_AuthorEmail :: string
  Build_AuthorAvatar :: string
  Build_Params :: "string \<rightharpoonup> string"
  Build_Deploy :: string
  Build_Sender :: string
  Build_Created :: int
  Build_Updated :: int
  Build_Finished :: int

record stage =
  Stage_RepoID :: int
  Stage_Number :: int
  Stage_Name :: string
  Stage_Kind :: string
  Stage_Type :: string
  Stage_OS :: string
  Stage_Arch :: string
  Stage_Variant :: string
  Stage_Kernel :: string
  Stage_Limit :: int
  Stage_Status :: status
  Stage_DependsOn :: "string list"
  Stage_OnSuccess :: bool
  Stage_OnFailure :: bool
  Stage_Labels :: "string \<rightharpoonup> string"
  Stage_Created :: int
  Stage_Updated :: int

text \<open>\<^verbatim>\<open>yaml.Condition\<close>: the include and exclude lists of one constraint.\<close>

record condition =
  Condition_Include :: "string list"
  Condition_Exclude :: "string list"

record pipeline =
  Pipeline_Name :: string
  Pipeline_Platform_OS :: string
  Pipeline_Platform_Arch :: string
  Pipeline_Platform_Variant :: string
  Pipeline_Platform_Version :: string
  Pipeline_Concurrency_Limit :: int
  Pipeline_DependsOn :: "string list"
  Pipeline_Node :: "string \<rightharpoonup> string"
  Pipeline_Trigger_Branch :: condition
  Pipeline_Trigger_Event :: condition
  Pipeline_Trigger_Ref :: condition
  Pipeline_Trigger_Repo :: condition
  Pipeline_Trigger_Target :: condition
  Pipeline_Trigger_Status :: condition

text \<open>
  A manifest is a sequence of resources; the type assertion
  \<^verbatim>\<open>document.(*yaml.Pipeline)\<close> of line 237 tells the pipelines from the other kinds.
\<close>

datatype resource = ResourcePipeline pipeline | ResourceOther string

record manifest =
  Manifest_Resources :: "resource list"

record webhook_data =
  Webhook_Event :: string
  Webhook_Action :: string
  Webhook_User :: user
  Webhook_Repo :: repository
  Webhook_Build :: build

subsection \<open>Constants of package core\<close>

text \<open>
  Modelled from the spec: the string constants of package \<^verbatim>\<open>core\<close> (its files are not
  among the sources). The spec writes the pull-request event as \<^verbatim>\<open>pull_request\<close>, the two
  trigger statuses as \<^verbatim>\<open>"success"\<close> and \<^verbatim>\<open>"failure"\<close>, and the webhook event as
  \<^verbatim>\<open>build/created\<close>; it names the hook-initiated trigger source without giving its text,
  and no theorem below depends on that text.
\<close>

definition EventPullRequest :: string where
  "EventPullRequest = ''pull_request''"

definition TriggerHook :: string where
  "TriggerHook = ''@hook''"

definition StatusPassing :: string where
  "StatusPassing = ''success''"

definition StatusFailing :: string where
  "StatusFailing = ''failure''"

definition WebhookEventBuild :: string where
  "WebhookEventBuild = ''build''"

definition WebhookActionCreated :: string where
  "WebhookActionCreated = ''created''"

subsection \<open>The collaborators and the libraries\<close>

text \<open>
  The struct \<^verbatim>\<open>triggerer\<close> (lines 33-42): eight interface values. Each is the one method
  that \<^verbatim>\<open>Trigger\<close> calls on it, as a function from the arguments to the outcome. Within
  one invocation every method is called at most once, except \<^verbatim>\<open>Schedule\<close>, whose calls
  receive stages with different numbers; so a function of the arguments loses nothing.
  A successful call returns a non-nil value, except \<^verbatim>\<open>commits.Find\<close>, whose nil result
  the code tests (line 119). The collaborators receive pointers to the repository, the
  hook, the build and the stages; they are taken not to change the fields modelled here.
\<close>

record triggerer =
  config_Find :: "user \<Rightarrow> repository \<Rightarrow> build \<Rightarrow> config outcome"
  commits_Find :: "user \<Rightarrow> string \<Rightarrow> string \<Rightarrow> commit option outcome"
  status_Send :: "user \<Rightarrow> repository \<Rightarrow> build \<Rightarrow> unit outcome"
  builds_Create :: "build \<Rightarrow> stage list \<Rightarrow> unit outcome"
  sched_Schedule :: "stage \<Rightarrow> unit outcome"
  repos_Increment :: "repository \<Rightarrow> repository outcome"
  users_Find :: "int \<Rightarrow> user outcome"
  hooks_Send :: "webhook_data \<Rightarrow> unit outcome"

text \<open>
  What \<^verbatim>\<open>Trigger\<close> uses and the sources do not hold, as parameters: the predicates of
  \<^verbatim>\<open>trigger/skip.go\<close>, the functions of the \<^verbatim>\<open>drone-yaml\<close> library, two functions of
  the Go standard library, and the clock. \<^verbatim>\<open>time_Now k\<close> is the Unix time that the
  \<open>k\<close>-th call of \<^verbatim>\<open>time.Now().Unix()\<close> of the invocation returns (counted from 0); the
  code reaches each call site after a fixed number of earlier calls.
\<close>

record externals =
  skipMessage :: "hook \<Rightarrow> bool"
  skipBranch :: "pipeline \<Rightarrow> string \<Rightarrow> bool"
  skipEvent :: "pipeline \<Rightarrow> string \<Rightarrow> bool"
  skipRef :: "pipeline \<Rightarrow> string \<Rightarrow> bool"
  skipRepo :: "pipeline \<Rightarrow> string \<Rightarrow> bool"
  skipTarget :: "pipeline \<Rightarrow> string \<Rightarrow> bool"
  strings_EqualFold :: "string \<Rightarrow> string \<Rightarrow> bool"
  filepath_Match :: "string \<Rightarrow> string \<Rightarrow> bool"
  converter_ConvertString :: "string \<Rightarrow> string \<Rightarrow> string \<Rightarrow> error + string"
  yaml_ParseString :: "string \<Rightarrow> error + manifest"
  linter_Manifest :: "manifest \<Rightarrow> bool \<Rightarrow> error option"
  signer_KeyString :: "string \<Rightarrow> string"
  signer_Verify :: "string \<Rightarrow> string \<Rightarrow> bool"
  time_Now :: "nat \<Rightarrow> int"

text \<open>
  Modelled from the spec: \<^verbatim>\<open>Condition.Match\<close> of the \<^verbatim>\<open>drone-yaml\<close> library, which is
  not among the sources. The spec (4.2): a non-empty include list that the value does not
  match skips; an exclude list that the value matches skips; empty include and empty
  exclude keep; matching is by glob (\<^verbatim>\<open>filepath.Match\<close>, a parameter).
\<close>

definition Condition_Match :: "externals \<Rightarrow> condition \<Rightarrow> string \<Rightarrow> bool" where
  "Condition_Match X c v =
     (if Condition_Include c \<noteq> [] \<and> \<not> list_ex (\<lambda>p. filepath_Match X p v) (Condition_Include c)
      then False
      else if list_ex (\<lambda>p. filepath_Match X p v) (Condition_Exclude c) then False
      else True)"

subsection \<open>The trace of an invocation\<close>

text \<open>One entry for each call of a collaborator, with its arguments, in the order of the calls.\<close>

datatype call =
    UsersFind int
  | CommitsFind user string string
  | ConfigFind user repository build
  | ReposIncrement repository
  | BuildsCreate build "stage list"
  | StatusSend user repository build
  | SchedSchedule stage
  | HooksSend webhook_data

text \<open>
  Where a piece of the function stands after running: it goes on with a value, it has
  returned (the build pointer and the error of the Go result), or it has panicked.
\<close>

datatype 'a flow = Next 'a | Return "build option" "error option" | Panicked

type_synonym 'a run = "call list \<times> 'a flow"

text \<open>Sequencing: the second piece runs only when the first goes on; the traces are joined.\<close>

definition andThen :: "'a run \<Rightarrow> ('a \<Rightarrow> 'b run) \<Rightarrow> 'b run" where
  "andThen m f =
     (case m of
        (tr, Next x) \<Rightarrow> (case f x of (tr', r) \<Rightarrow> (tr @ tr', r))
      | (tr, Return b e) \<Rightarrow> (tr, Return b e)
      | (tr, Panicked) \<Rightarrow> (tr, Panicked))"

text \<open>
  A call whose error is fatal: \<^verbatim>\<open>if err != nil { return nil, err }\<close>.
\<close>

definition fatal :: "call \<Rightarrow> 'a outcome \<Rightarrow> 'a run" where
  "fatal c r =
     (case r of
        Ok x \<Rightarrow> ([c], Next x)
      | Fail err \<Rightarrow> ([c], Return None (Some err))
      | Panic \<Rightarrow> ([c], Panicked))"

text \<open>A call whose error is only logged (lines 370-377 and 401-405).\<close>

definition logged :: "call \<Rightarrow> unit outcome \<Rightarrow> unit run" where
  "logged c r =
     (case r of
        Ok x \<Rightarrow> ([c], Next ())
      | Fail err \<Rightarrow> ([c], Next ())
      | Panic \<Rightarrow> ([c], Panicked))"

text \<open>A library function whose error is fatal (lines 197-205); it is no collaborator call.\<close>

definition fatal_pure :: "error + 'a \<Rightarrow> 'a run" where
  "fatal_pure r = (case r of Inl err \<Rightarrow> ([], Return None (Some err)) | Inr x \<Rightarrow> ([], Next x))"

subsection \<open>The pieces of Trigger\<close>

text \<open>
  Hook-level gating, lines 87-100: the three tests that return \<^verbatim>\<open>nil, nil\<close> before the
  first collaborator call.
\<close>

definition gated :: "externals \<Rightarrow> repository \<Rightarrow> hook \<Rightarrow> bool" where
  "gated X repo base =
     (if skipMessage X base then True
      else if Hook_Event base = EventPullRequest then
        (if Repo_IgnorePulls repo then True
         else if Repo_IgnoreForks repo \<and> \<not> strings_EqualFold X (Hook_Fork base) (Repo_Slug repo)
         then True
         else False)
      else False)"

text \<open>
  Lines 117-131: the optional call that fills the message and the blank author fields.
  The hook is changed in place; the piece goes on with the changed hook. An error of the
  call and a nil commit leave the hook as it is.
\<close>

definition augment :: "triggerer \<Rightarrow> user \<Rightarrow> repository \<Rightarrow> hook \<Rightarrow> hook run" where
  "augment t user repo base =
     (if Hook_Message base = [] \<and> Hook_After base \<noteq> [] then
        (case commits_Find t user (Repo_Slug repo) (Hook_After base) of
           Ok (Some commit) \<Rightarrow>
             ([CommitsFind user (Repo_Slug repo) (Hook_After base)],
              Next (base
                \<lparr> Hook_Message := Commit_Message commit,
                  Hook_AuthorEmail :=
                    (if Hook_AuthorEmail base = [] then Committer_Email (Commit_Author commit)
                     else Hook_AuthorEmail base),
                  Hook_AuthorName :=
                    (if Hook_AuthorName base = [] then Committer_Name (Commit_Author commit)
                     else Hook_AuthorName base),
                  Hook_AuthorAvatar :=
                    (if Hook_AuthorAvatar base = [] then Committer_Avatar (Commit_Author commit)
                     else Hook_AuthorAvatar base) \<rparr>))
         | Ok None \<Rightarrow> ([CommitsFind user (Repo_Slug repo) (Hook_After base)], Next base)
         | Fail err \<Rightarrow> ([CommitsFind user (Repo_Slug repo) (Hook_After base)], Next base)
         | Panic \<Rightarrow> ([CommitsFind user (Repo_Slug repo) (Hook_After base)], Panicked))
      else ([], Next base))"

text \<open>
  Lines 159-185: the build draft handed to the configuration service. Its two time stamps
  are the calls number 0 and 1 of the clock. The fields left out of the Go literal have
  their zero value.
\<close>

definition draft_build :: "externals \<Rightarrow> repository \<Rightarrow> hook \<Rightarrow> build" where
  "draft_build X repo base =
     \<lparr> Build_RepoID = Repo_ID repo,
       Build_Trigger = Hook_Trigger base,
       Build_Number = 0,
       Build_Parent = Hook_Parent base,
       Build_Status = StatusPending,
       Build_Error = [],
       Build_Event = Hook_Event base,
       Build_Action = Hook_Action base,
       Build_Link = Hook_Link base,
       Build_Title = Hook_Title base,
       Build_Message = Hook_Message base,
       Build_Before = Hook_Before base,
       Build_After = Hook_After base,
       Build_Ref = Hook_Ref base,
       Build_Fork = Hook_Fork base,
       Build_Source = Hook_Source base,
       Build_Target = Hook_Target base,
       Build_Author = Hook_Author base,
       Build_AuthorName = Hook_AuthorName base,
       Build_AuthorEmail = Hook_AuthorEmail base,
       Build_AuthorAvatar = Hook_AuthorAvatar base,
       Build_Params = Hook_Params base,
       Build_Deploy = Hook_Deployment base,
       Build_Sender = Hook_Sender base,
       Build_Created = time_Now X 0,
       Build_Updated = time_Now X 1,
       Build_Finished = 0 \<rparr>"

text \<open>
  Lines 221-226: the signature is checked only for a protected repository and a trigger
  that is a hook; the error of \<^verbatim>\<open>signer.Verify\<close> is dropped.
\<close>

definition verify :: "externals \<Rightarrow> repository \<Rightarrow> hook \<Rightarrow> string \<Rightarrow> bool" where
  "verify X repo base data =
     (if Repo_Protected repo \<and> Hook_Trigger base = TriggerHook
      then signer_Verify X data (signer_KeyString X (Repo_Secret repo))
      else True)"

text \<open>Lines 235-274: the pipelines of the manifest that no predicate skips, in order.\<close>

fun match_pipelines :: "externals \<Rightarrow> repository \<Rightarrow> hook \<Rightarrow> resource list \<Rightarrow> pipeline list" where
  "match_pipelines X repo base [] = []"
| "match_pipelines X repo base (ResourceOther k # documents) =
     match_pipelines X repo base documents"
| "match_pipelines X repo base (ResourcePipeline pipeline # documents) =
     (if skipBranch X pipeline (Hook_Target base) then match_pipelines X repo base documents
      else if skipEvent X pipeline (Hook_Event base) then match_pipelines X repo base documents
      else if skipRef X pipeline (Hook_Ref base) then match_pipelines X repo base documents
      else if skipRepo X pipeline (Repo_Slug repo) then match_pipelines X repo base documents
      else if skipTarget X pipeline (Hook_Deployment base)
      then match_pipelines X repo base documents
      else pipeline # match_pipelines X repo base documents)"

subsection \<open>trunc and the Unicode text of a Go string\<close>

text \<open>
  \<^verbatim>\<open>trunc\<close> (lines 427-433) converts the string to a rune slice and back. The Go
  language defines both conversions: \<^verbatim>\<open>[]rune(s)\<close> yields the code points of the UTF-8
  text of \<open>s\<close>, with \<^verbatim>\<open>0xFFFD\<close> for every byte that starts no valid encoding;
  \<^verbatim>\<open>string(runes)\<close> joins the UTF-8 encodings of the runes, with the encoding of
  \<^verbatim>\<open>0xFFFD\<close> for a surrogate half and for a value above \<^verbatim>\<open>0x10FFFF\<close>. Bytes and runes
  are natural numbers here; a rune read from a string is never negative.
\<close>

definition RuneError :: nat where
  "RuneError = 0xFFFD"

definition continuation :: "nat \<Rightarrow> nat \<Rightarrow> nat \<Rightarrow> bool" where
  "continuation lo hi b = (lo \<le> b \<and> b \<le> hi)"

text \<open>
  \<^verbatim>\<open>utf8.DecodeRune\<close>: the rune at the start of the bytes and its width. The second byte
  of a sequence has a narrower range after \<^verbatim>\<open>E0\<close>, \<^verbatim>\<open>ED\<close>, \<^verbatim>\<open>F0\<close> and \<^verbatim>\<open>F4\<close>
  (no overlong form, no surrogate, nothing above \<^verbatim>\<open>0x10FFFF\<close>).
\<close>

fun DecodeRune :: "nat list \<Rightarrow> nat \<times> nat" where
  "DecodeRune [] = (RuneError, 0)"
| "DecodeRune (b0 # bs) =
     (if b0 < 0x80 then (b0, 1)
      else if 0xC2 \<le> b0 \<and> b0 \<le> 0xDF then
        (case bs of
           b1 # _ \<Rightarrow>
             if continuation 0x80 0xBF b1 then ((b0 - 0xC0) * 64 + (b1 - 0x80), 2)
             else (RuneError, 1)
         | _ \<Rightarrow> (RuneError, 1))
      else if 0xE0 \<le> b0 \<and> b0 \<le> 0xEF then
        (case bs of
           b1 # b2 # _ \<Rightarrow>
             if continuation (if b0 = 0xE0 then 0xA0 else 0x80) (if b0 = 0xED then 0x9F else 0xBF) b1
                \<and> continuation 0x80 0xBF b2
             then ((b0 - 0xE0) * 4096 + (b1 - 0x80) * 64 + (b2 - 0x80), 3)
             else (RuneError, 1)
         | _ \<Rightarrow> (RuneError, 1))
      else if 0xF0 \<le> b0 \<and> b0 \<le> 0xF4 then
        (case bs of
           b1 # b2 # b3 # _ \<Rightarrow>
             if continuation (if b0 = 0xF0 then 0x90 else 0x80) (if b0 = 0xF4 then 0x8F else 0xBF) b1
                \<and> continuation 0x80 0xBF b2 \<and> continuation 0x80 0xBF b3
             then ((b0 - 0xF0) * 262144 + (b1 - 0x80) * 4096 + (b2 - 0x80) * 64 + (b3 - 0x80), 4)
             else (RuneError, 1)
         | _ \<Rightarrow> (RuneError, 1))
      else (RuneError, 1))"

fun decode_bytes :: "nat list \<Rightarrow> nat list" where
  "decode_bytes [] = []"
| "decode_bytes (b0 # bs) =
     (case DecodeRune (b0 # bs) of (r, n) \<Rightarrow> r # decode_bytes (drop (n - 1) bs))"

text \<open>\<^verbatim>\<open>utf8.EncodeRune\<close>.\<close>

definition EncodeRune :: "nat \<Rightarrow> nat list" where
  "EncodeRune r =
     (if r \<le> 0x7F then [r]
      else if r \<le> 0x7FF then [0xC0 + r div 64, 0x80 + r mod 64]
      else if r > 0x10FFFF \<or> (0xD800 \<le> r \<and> r \<le> 0xDFFF) then [0xEF, 0xBF, 0xBD]
      else if r \<le> 0xFFFF then [0xE0 + r div 4096, 0x80 + r div 64 mod 64, 0x80 + r mod 64]
      else [0xF0 + r div 262144, 0x80 + r div 4096 mod 64, 0x80 + r div 64 mod 64,
            0x80 + r mod 64])"

text \<open>\<^verbatim>\<open>[]rune(s)\<close> and \<^verbatim>\<open>string(runes)\<close>.\<close>

definition runes_of :: "string \<Rightarrow> nat list" where
  "runes_of s = decode_bytes (map of_char s)"

definition string_of :: "nat list \<Rightarrow> string" where
  "string_of rs = map char_of (concat (map EncodeRune rs))"

text \<open>A Unicode scalar value: a code point that is no surrogate half.\<close>

definition ValidRune :: "nat \<Rightarrow> bool" where
  "ValidRune r = (r < 0xD800 \<or> (0xDFFF < r \<and> r \<le> 0x10FFFF))"

definition normalize :: "nat \<Rightarrow> nat" where
  "normalize r = (if ValidRune r then r else RuneError)"

text \<open>
  Lines 427-433. The limit \<open>i\<close> is a Go \<^verbatim>\<open>int\<close>; both calls pass 2000, and a negative
  limit would make the slice expression \<^verbatim>\<open>runes[:i]\<close> panic, so the limit is a natural
  number here.
\<close>

definition trunc :: "string \<Rightarrow> nat \<Rightarrow> string" where
  "trunc s i =
     (let runes = runes_of s
      in if length runes > i then string_of (take i runes) else s)"

subsection \<open>The build and its stages\<close>

text \<open>
  Lines 288-315: the build of the main path, numbered by the counter of the repository
  that \<^verbatim>\<open>Increment\<close> returned. Its time stamps are the calls number 2 and 3 of the clock.
\<close>

definition new_build :: "externals \<Rightarrow> repository \<Rightarrow> hook \<Rightarrow> build" where
  "new_build X repo base =
     \<lparr> Build_RepoID = Repo_ID repo,
       Build_Trigger = Hook_Trigger base,
       Build_Number = Repo_Counter repo,
       Build_Parent = Hook_Parent base,
       Build_Status = StatusPending,
       Build_Error = [],
       Build_Event = Hook_Event base,
       Build_Action = Hook_Action base,
       Build_Link = Hook_Link base,
       Build_Title = trunc (Hook_Title base) 2000,
       Build_Message = trunc (Hook_Message base) 2000,
       Build_Before = Hook_Before base,
       Build_After = Hook_After base,
       Build_Ref = Hook_Ref base,
       Build_Fork = Hook_Fork base,
       Build_Source = Hook_Source base,
       Build_Target = Hook_Target base,
       Build_Author = Hook_Author base,
       Build_AuthorName = Hook_AuthorName base,
       Build_AuthorEmail = Hook_AuthorEmail base,
       Build_AuthorAvatar = Hook_AuthorAvatar base,
       Build_Params = Hook_Params base,
       Build_Deploy = Hook_Deployment base,
       Build_Sender = Hook_Sender base,
       Build_Created = time_Now X 2,
       Build_Updated = time_Now X 3,
       Build_Finished = 0 \<rparr>"

text \<open>
  Lines 319-360, the body of the loop over the matched pipelines, for the pipeline at index
  \<open>i\<close> (from 0): the two trigger flags, the stage literal with the status
  \<^verbatim>\<open>StatusWaiting\<close>, the three defaults, and the status set by lines 355-359.
\<close>

definition new_stage :: "externals \<Rightarrow> repository \<Rightarrow> bool \<Rightarrow> nat \<Rightarrow> pipeline \<Rightarrow> stage" where
  "new_stage X repo verified i match =
     (let onSuccess = Condition_Match X (Pipeline_Trigger_Status match) StatusPassing;
          onFailure = Condition_Match X (Pipeline_Trigger_Status match) StatusFailing;
          onFailure =
            (if length (Condition_Include (Pipeline_Trigger_Status match))
                + length (Condition_Exclude (Pipeline_Trigger_Status match)) = 0
             then False else onFailure);
          stage =
            \<lparr> Stage_RepoID = Repo_ID repo,
              Stage_Number = int i + 1,
              Stage_Name = Pipeline_Name match,
              Stage_Kind = [],
              Stage_Type = [],
              Stage_OS = Pipeline_Platform_OS match,
              Stage_Arch = Pipeline_Platform_Arch match,
              Stage_Variant = Pipeline_Platform_Variant match,
              Stage_Kernel = Pipeline_Platform_Version match,
              Stage_Limit = Pipeline_Concurrency_Limit match,
              Stage_Status = StatusWaiting,
              Stage_DependsOn = Pipeline_DependsOn match,
              Stage_OnSuccess = onSuccess,
              Stage_OnFailure = onFailure,
              Stage_Labels = Pipeline_Node match,
              Stage_Created = time_Now X (4 + 2 * i),
              Stage_Updated = time_Now X (5 + 2 * i) \<rparr>;
          stage = (if Stage_OS stage = [] then stage\<lparr>Stage_OS := ''linux''\<rparr> else stage);
          stage = (if Stage_Arch stage = [] then stage\<lparr>Stage_Arch := ''amd64''\<rparr> else stage);
          stage = (if Stage_Name stage = [] then stage\<lparr>Stage_Name := ''default''\<rparr> else stage);
          stage =
            (if verified = False then stage\<lparr>Stage_Status := StatusBlocked\<rparr>
             else if length (Stage_DependsOn stage) = 0
             then stage\<lparr>Stage_Status := StatusPending\<rparr>
             else stage)
      in stage)"

text \<open>Lines 317-361: the loop, from index \<open>i\<close> on.\<close>

fun make_stages :: "externals \<Rightarrow> repository \<Rightarrow> bool \<Rightarrow> nat \<Rightarrow> pipeline list \<Rightarrow> stage list" where
  "make_stages X repo verified i [] = []"
| "make_stages X repo verified i (match # matched) =
     new_stage X repo verified i match # make_stages X repo verified (Suc i) matched"

text \<open>
  Lines 379-392: the stages with no dependency that are not blocked are handed to the
  scheduler, in order; the first error returns it and leaves the later stages alone.
\<close>

fun schedule_stages :: "triggerer \<Rightarrow> stage list \<Rightarrow> unit run" where
  "schedule_stages t [] = ([], Next ())"
| "schedule_stages t (stage # stages) =
     (if length (Stage_DependsOn stage) \<noteq> 0 then schedule_stages t stages
      else if Stage_Status stage = StatusBlocked then schedule_stages t stages
      else andThen (fatal (SchedSchedule stage) (sched_Schedule t stage))
             (\<lambda>_. schedule_stages t stages))"

subsection \<open>createBuildError\<close>

text \<open>
  Lines 435-472. The literal sets neither \<^verbatim>\<open>Trigger\<close> nor \<^verbatim>\<open>Params\<close>, and it copies the
  title and the message as they are. Its three time stamps are the calls number 2, 3 and 4
  of the clock (the draft of \<^verbatim>\<open>Trigger\<close> took 0 and 1). The function returns the build
  together with the error of \<^verbatim>\<open>Create\<close>, whatever it is (line 471).
\<close>

definition error_build :: "externals \<Rightarrow> repository \<Rightarrow> hook \<Rightarrow> string \<Rightarrow> build" where
  "error_build X repo base message =
     \<lparr> Build_RepoID = Repo_ID repo,
       Build_Trigger = [],
       Build_Number = Repo_Counter repo,
       Build_Parent = Hook_Parent base,
       Build_Status = StatusError,
       Build_Error = message,
       Build_Event = Hook_Event base,
       Build_Action = Hook_Action base,
       Build_Link = Hook_Link base,
       Build_Title = Hook_Title base,
       Build_Message = Hook_Message base,
       Build_Before = Hook_Before base,
       Build_After = Hook_After base,
       Build_Ref = Hook_Ref base,
       Build_Fork = Hook_Fork base,
       Build_Source = Hook_Source base,
       Build_Target = Hook_Target base,
       Build_Author = Hook_Author base,
       Build_AuthorName = Hook_AuthorName base,
       Build_AuthorEmail = Hook_AuthorEmail base,
       Build_AuthorAvatar = Hook_AuthorAvatar base,
       Build_Params = Map.empty,
       Build_Deploy = Hook_Deployment base,
       Build_Sender = Hook_Sender base,
       Build_Created = time_Now X 2,
       Build_Updated = time_Now X 3,
       Build_Finished = time_Now X 4 \<rparr>"

definition createBuildError ::
  "externals \<Rightarrow> triggerer \<Rightarrow> repository \<Rightarrow> hook \<Rightarrow> string \<Rightarrow> unit run" where
  "createBuildError X t repo base message =
     andThen (fatal (ReposIncrement repo) (repos_Increment t repo)) (\<lambda>repo.
       (let build = error_build X repo base message
        in case builds_Create t build [] of
             Ok u \<Rightarrow> ([BuildsCreate build []], Return (Some build) None)
           | Fail err \<Rightarrow> ([BuildsCreate build []], Return (Some build) (Some err))
           | Panic \<Rightarrow> ([BuildsCreate build []], Panicked)))"

subsection \<open>Trigger\<close>

text \<open>
  Lines 221-425: from the verification of the signature to the end, for a manifest that
  parsed and passed the linter.
\<close>

definition dispatch ::
  "externals \<Rightarrow> triggerer \<Rightarrow> repository \<Rightarrow> user \<Rightarrow> hook \<Rightarrow> string \<Rightarrow> manifest \<Rightarrow> unit run" where
  "dispatch X t repo user base data manifest =
     (let verified = verify X repo base data;
          matched = match_pipelines X repo base (Manifest_Resources manifest)
      in if length matched = 0 then ([], Return None None)
         else
           andThen (fatal (ReposIncrement repo) (repos_Increment t repo)) (\<lambda>repo.
             (let build = new_build X repo base;
                  stages = make_stages X repo verified 0 matched
              in andThen (fatal (BuildsCreate build stages) (builds_Create t build stages)) (\<lambda>_.
                 andThen (logged (StatusSend user repo build) (status_Send t user repo build)) (\<lambda>_.
                 andThen (schedule_stages t stages) (\<lambda>_.
                   (let payload =
                          \<lparr> Webhook_Event = WebhookEventBuild,
                            Webhook_Action = WebhookActionCreated,
                            Webhook_User = user,
                            Webhook_Repo = repo,
                            Webhook_Build = build \<rparr>
                    in andThen (logged (HooksSend payload) (hooks_Send t payload)) (\<lambda>_.
                         ([], Return (Some build) None)))))))))"

text \<open>
  Lines 207-219, then \<open>dispatch\<close>: a parse error and a lint error go to
  \<^verbatim>\<open>createBuildError\<close> with the message of the error.
\<close>

definition Trigger_manifest ::
  "externals \<Rightarrow> triggerer \<Rightarrow> repository \<Rightarrow> user \<Rightarrow> hook \<Rightarrow> string \<Rightarrow> unit run" where
  "Trigger_manifest X t repo user base data =
     (case yaml_ParseString X data of
        Inl err \<Rightarrow> createBuildError X t repo base (Error_message err)
      | Inr manifest \<Rightarrow>
          (case linter_Manifest X manifest (Repo_Trusted repo) of
             Some err \<Rightarrow> createBuildError X t repo base (Error_message err)
           | None \<Rightarrow> dispatch X t repo user base data manifest))"

text \<open>
  Lines 87-205: the body of \<^verbatim>\<open>Trigger\<close> up to the conversion of the legacy format, then
  \<open>Trigger_manifest\<close> on the converted text.
\<close>

definition Trigger_body :: "externals \<Rightarrow> triggerer \<Rightarrow> repository \<Rightarrow> hook \<Rightarrow> unit run" where
  "Trigger_body X t repo base =
     (if gated X repo base then ([], Return None None)
      else
        andThen (fatal (UsersFind (Repo_UserID repo)) (users_Find t (Repo_UserID repo))) (\<lambda>user.
          if User_Active user = False then ([], Return None None)
          else
            andThen (augment t user repo base) (\<lambda>base.
            andThen (fatal (ConfigFind user repo (draft_build X repo base))
                       (config_Find t user repo (draft_build X repo base))) (\<lambda>raw.
            andThen (fatal_pure
                       (converter_ConvertString X (Config_Data raw) (Repo_Config repo)
                          (Hook_Ref base))) (\<lambda>data.
              Trigger_manifest X t repo user base data)))))"

text \<open>
  The result of an invocation: the trace of the collaborator calls and the Go result
  \<^verbatim>\<open>(*core.Build, error)\<close>. The deferred function of lines 78-85 recovers a panic, so the
  function then returns the zero values of its results, \<^verbatim>\<open>nil, nil\<close>. A piece that goes
  on to the end without a return does not occur; it is given the same result.
\<close>

definition Trigger ::
  "externals \<Rightarrow> triggerer \<Rightarrow> repository \<Rightarrow> hook \<Rightarrow> call list \<times> build option \<times> error option" where
  "Trigger X t repo base =
     (case Trigger_body X t repo base of
        (tr, Return b e) \<Rightarrow> (tr, b, e)
      | (tr, Panicked) \<Rightarrow> (tr, None, None)
      | (tr, Next u) \<Rightarrow> (tr, None, None))"

subsection \<open>Reading a run\<close>

text \<open>
  The invocation reaches the parser: the hook is not gated, the owner \<open>user\<close> is found and
  active, the hook after lines 117-131 is \<open>base1\<close>, the configuration is found and its
  conversion yields the text \<open>data\<close>.
\<close>

definition reaches_parser ::
  "externals \<Rightarrow> triggerer \<Rightarrow> repository \<Rightarrow> hook \<Rightarrow> user \<Rightarrow> hook \<Rightarrow> string \<Rightarrow> bool" where
  "reaches_parser X t repo base user base1 data =
     (\<not> gated X repo base
      \<and> users_Find t (Repo_UserID repo) = Ok user
      \<and> User_Active user
      \<and> snd (augment t user repo base) = Next base1
      \<and> (case config_Find t user repo (draft_build X repo base1) of
           Ok raw \<Rightarrow>
             converter_ConvertString X (Config_Data raw) (Repo_Config repo) (Hook_Ref base1)
               = Inr data
         | Fail err \<Rightarrow> False
         | Panic \<Rightarrow> False))"

text \<open>The calls made up to the parser in such a run.\<close>

definition calls_before_parser ::
  "externals \<Rightarrow> triggerer \<Rightarrow> repository \<Rightarrow> hook \<Rightarrow> user \<Rightarrow> hook \<Rightarrow> call list" where
  "calls_before_parser X t repo base user base1 =
     UsersFind (Repo_UserID repo) # fst (augment t user repo base)
       @ [ConfigFind user repo (draft_build X repo base1)]"

subsection \<open>What a successful invocation scheduled and persisted\<close>

text \<open>The stages handed to the scheduler and the stages handed to the build store, in order.\<close>

fun scheduled :: "call list \<Rightarrow> stage list" where
  "scheduled [] = []"
| "scheduled (SchedSchedule stage # tr) = stage # scheduled tr"
| "scheduled (c # tr) = scheduled tr"

fun persisted :: "call list \<Rightarrow> stage list" where
  "persisted [] = []"
| "persisted (BuildsCreate build stages # tr) = stages @ persisted tr"
| "persisted (c # tr) = persisted tr"

text \<open>The three look-ups that come before the parser.\<close>

fun finder :: "call \<Rightarrow> bool" where
  "finder (UsersFind i) = True"
| "finder (CommitsFind user slug sha) = True"
| "finder (ConfigFind user repo build) = True"
| "finder c = False"

text \<open>The calls that the error-build path must not make: scheduler, status and webhook.\<close>

fun fanout :: "call \<Rightarrow> bool" where
  "fanout (SchedSchedule stage) = True"
| "fanout (StatusSend user repo build) = True"
| "fanout (HooksSend payload) = True"
| "fanout c = False"

text \<open>
  The two trigger flags of a stage against the status constraint of its pipeline: the
  first is the match of \<^verbatim>\<open>success\<close>; the second is the match of \<^verbatim>\<open>failure\<close> and holds
  only when a list of the constraint is non-empty; with both lists empty the stage runs on
  success only.
\<close>

definition flags_follow_status :: "externals \<Rightarrow> pipeline \<Rightarrow> stage \<Rightarrow> bool" where
  "flags_follow_status X match stage =
     (Stage_OnSuccess stage = Condition_Match X (Pipeline_Trigger_Status match) StatusPassing
      \<and> Stage_OnFailure stage =
          (Condition_Match X (Pipeline_Trigger_Status match) StatusFailing
           \<and> (Condition_Include (Pipeline_Trigger_Status match) \<noteq> []
              \<or> Condition_Exclude (Pipeline_Trigger_Status match) \<noteq> []))
      \<and> (if Condition_Include (Pipeline_Trigger_Status match) = []
             \<and> Condition_Exclude (Pipeline_Trigger_Status match) = []
          then Stage_OnSuccess stage \<and> \<not> Stage_OnFailure stage else True))"

subsection \<open>User-perceived characters\<close>

text \<open>
  The spec speaks of user-perceived characters (grapheme clusters). A cluster is a code point
  together with the marks that extend it (rule GB9 of Unicode Standard Annex 29). The
  marks taken here are the block Combining Diacritical Marks, \<^verbatim>\<open>U+0300\<close> to
  \<^verbatim>\<open>U+036F\<close>, all of which have the property Grapheme_Extend; on text made of ASCII letters
  and such marks the clusters below are those of the standard.
\<close>

definition Extend :: "nat \<Rightarrow> bool" where
  "Extend r = (0x300 \<le> r \<and> r \<le> 0x36F)"

fun graphemes :: "nat list \<Rightarrow> nat list list" where
  "graphemes [] = []"
| "graphemes [r] = [[r]]"
| "graphemes (r # r' # rs) =
     (if Extend r' then
        (case graphemes (r' # rs) of g # gs \<Rightarrow> (r # g) # gs | [] \<Rightarrow> [[r]])
      else [r] # graphemes (r' # rs))"

section \<open>The webhook sender\<close>











section \<open>A concrete setting\<close>

text \<open>
  One repository, its owner, a push hook and a manifest with two pipelines, \<open>A\<close> and
  \<open>B\<close>, the second depending on the first; collaborators that succeed; and simple
  stand-ins for the libraries. The theorems are instantiated on it and on variations of it.
\<close>

definition example_user :: user where
  "example_user = \<lparr> User_ID = 1, User_Login = ''octocat'', User_Active = True \<rparr>"

definition example_repo :: repository where
  "example_repo =
     \<lparr> Repo_ID = 7, Repo_UserID = 1, Repo_Slug = ''octocat/hello'', Repo_Config = ''.drone.yml'',
       Repo_Counter = 41, Repo_Trusted = False, Repo_Protected = False,
       Repo_IgnoreForks = False, Repo_IgnorePulls = False, Repo_Secret = ''s3cr3t'' \<rparr>"

definition example_hook :: hook where
  "example_hook =
     \<lparr> Hook_Parent = 0, Hook_Trigger = ''@hook'', Hook_Event = ''push'', Hook_Action = [],
       Hook_Link = ''https://git.example/octocat/hello/commit/a1b2c3'',
       Hook_Title = [], Hook_Message = ''update readme'',
       Hook_Before = ''000000'', Hook_After = ''a1b2c3'', Hook_Ref = ''refs/heads/master'',
       Hook_Fork = ''octocat/hello'', Hook_Source = ''master'', Hook_Target = ''master'',
       Hook_Author = ''octocat'', Hook_AuthorName = ''The Octocat'',
       Hook_AuthorEmail = ''octocat@git.example'', Hook_AuthorAvatar = [],
       Hook_Deployment = [], Hook_Sender = ''octocat'', Hook_Params = Map.empty \<rparr>"

definition no_condition :: condition where
  "no_condition = \<lparr> Condition_Include = [], Condition_Exclude = [] \<rparr>"

definition pipeline_A :: pipeline where
  "pipeline_A =
     \<lparr> Pipeline_Name = ''A'', Pipeline_Platform_OS = [], Pipeline_Platform_Arch = [],
       Pipeline_Platform_Variant = [], Pipeline_Platform_Version = [],
       Pipeline_Concurrency_Limit = 0, Pipeline_DependsOn = [], Pipeline_Node = Map.empty,
       Pipeline_Trigger_Branch = no_condition,
       Pipeline_Trigger_Event = \<lparr> Condition_Include = [''push''], Condition_Exclude = [] \<rparr>,
       Pipeline_Trigger_Ref = no_condition, Pipeline_Trigger_Repo = no_condition,
       Pipeline_Trigger_Target = no_condition, Pipeline_Trigger_Status = no_condition \<rparr>"

definition pipeline_B :: pipeline where
  "pipeline_B =
     pipeline_A
       \<lparr> Pipeline_Name := ''B'', Pipeline_DependsOn := [''A''],
         Pipeline_Trigger_Status :=
           \<lparr> Condition_Include = [''success'', ''failure''], Condition_Exclude = [] \<rparr> \<rparr>"

definition example_manifest :: manifest where
  "example_manifest =
     \<lparr> Manifest_Resources =
         [ResourcePipeline pipeline_A, ResourceOther ''secret'', ResourcePipeline pipeline_B] \<rparr>"

text \<open>ASCII letters in lower case, for a stand-in of \<^verbatim>\<open>strings.EqualFold\<close> on ASCII text.\<close>

definition ascii_lower :: "char \<Rightarrow> char" where
  "ascii_lower c =
     (let n = of_char c :: nat in if 65 \<le> n \<and> n \<le> 90 then char_of (n + 32) else c)"

text \<open>
  The stand-ins: a message that carries the skip directive of scenario 1 is skipped; a
  pipeline is skipped for an event that its non-empty include list does not hold; the
  patterns have no wildcard, so a pattern matches the equal text; the file \<^verbatim>\<open>:::\<close> of
  scenario 4 does not parse and any other parses to the manifest above; no manifest is
  signed; the clock advances by one second with each call.
\<close>

definition example_externals :: externals where
  "example_externals =
     \<lparr> skipMessage = (\<lambda>h. Hook_Message h = ''update readme [ci skip]''),
       skipBranch = (\<lambda>p v. False),
       skipEvent =
         (\<lambda>p v. Condition_Include (Pipeline_Trigger_Event p) \<noteq> []
                \<and> v \<notin> set (Condition_Include (Pipeline_Trigger_Event p))),
       skipRef = (\<lambda>p v. False),
       skipRepo = (\<lambda>p v. False),
       skipTarget = (\<lambda>p v. False),
       strings_EqualFold = (\<lambda>a b. map ascii_lower a = map ascii_lower b),
       filepath_Match = (\<lambda>pattern name. pattern = name),
       converter_ConvertString = (\<lambda>data filename ref. Inr data),
       yaml_ParseString =
         (\<lambda>data. if data = '':::'' then Inl (GoError ''yaml: did not find expected key'')
                 else Inr example_manifest),
       linter_Manifest = (\<lambda>m trusted. None),
       signer_KeyString = (\<lambda>secret. secret),
       signer_Verify = (\<lambda>data key. False),
       time_Now = (\<lambda>k. 1500000000 + int k) \<rparr>"

definition example_triggerer :: triggerer where
  "example_triggerer =
     \<lparr> config_Find = (\<lambda>user repo build. Ok \<lparr> Config_Data = ''kind: pipeline'' \<rparr>),
       commits_Find = (\<lambda>user slug sha. Ok None),
       status_Send = (\<lambda>user repo build. Ok ()),
       builds_Create = (\<lambda>build stages. Ok ()),
       sched_Schedule = (\<lambda>stage. Ok ()),
       repos_Increment = (\<lambda>repo. Ok (repo\<lparr>Repo_Counter := Repo_Counter repo + 1\<rparr>)),
       users_Find =
         (\<lambda>id. if id = 1 then Ok example_user else Fail (GoError ''sql: no rows in result set'')),
       hooks_Send = (\<lambda>payload. Ok ()) \<rparr>"

text \<open>The repository after the increment, and the same setting with a manifest that does not parse.\<close>

definition example_repo' :: repository where
  "example_repo' = example_repo\<lparr>Repo_Counter := 42\<rparr>"

definition broken_triggerer :: triggerer where
  "broken_triggerer =
     example_triggerer\<lparr>config_Find := (\<lambda>user repo build. Ok \<lparr> Config_Data = '':::'' \<rparr>)\<rparr>"

text \<open>
  Variations: the message of scenario 1; a pull request from a fork; a tag event, which no
  pipeline of the manifest includes; an owner who is not active; a repository store that
  fails to increment the counter.
\<close>

definition skip_hook :: hook where
  "skip_hook = example_hook\<lparr>Hook_Message := ''update readme [ci skip]''\<rparr>"

definition pull_hook :: hook where
  "pull_hook = example_hook\<lparr>Hook_Event := ''pull_request'', Hook_Fork := ''mallory/hello''\<rparr>"

definition tag_hook :: hook where
  "tag_hook = example_hook\<lparr>Hook_Event := ''tag'', Hook_Ref := ''refs/tags/v1.0.0''\<rparr>"

definition inactive_triggerer :: triggerer where
  "inactive_triggerer =
     example_triggerer\<lparr>users_Find := (\<lambda>id. Ok (example_user\<lparr>User_Active := False\<rparr>))\<rparr>"

definition locked_triggerer :: triggerer where
  "locked_triggerer =
     broken_triggerer\<lparr>repos_Increment := (\<lambda>repo. Fail (GoError ''database is locked''))\<rparr>"

text \<open>The draft, the build, the stages and the trace of the invocation on the setting.\<close>

definition example_draft :: build where
  "example_draft = draft_build example_externals example_repo example_hook"

definition example_build :: build where
  "example_build = new_build example_externals example_repo' example_hook"

definition example_stages :: "stage list" where
  "example_stages = make_stages example_externals example_repo' True 0 [pipeline_A, pipeline_B]"

definition example_trace :: "call list" where
  "example_trace =
     [UsersFind 1,
      ConfigFind example_user example_repo example_draft,
      ReposIncrement example_repo,
      BuildsCreate example_build example_stages,
      StatusSend example_user example_repo' example_build,
      SchedSchedule (new_stage example_externals example_repo' True 0 pipeline_A),
      HooksSend \<lparr> Webhook_Event = WebhookEventBuild, Webhook_Action = WebhookActionCreated,
                  Webhook_User = example_user, Webhook_Repo = example_repo',
                  Webhook_Build = example_build \<rparr>]"

text \<open>
  A title of 2000 letters \<open>a\<close>, the last one followed by the combining acute accent
  \<^verbatim>\<open>U+0301\<close> (the bytes \<^verbatim>\<open>CC 81\<close>): 2001 code points.
\<close>

definition accented_title :: string where
  "accented_title = replicate 2000 (CHR ''a'') @ [CHR 0xCC, CHR 0x81]"

text \<open>
  A hook with that title and no message, and a commit service whose commit has a message
  of 2001 letters \<open>e\<close> with acute accent, \<^verbatim>\<open>U+00E9\<close> (the bytes \<^verbatim>\<open>C3 A9\<close>, 4002 bytes
  in all): lines 117-131 take the message and the avatar from the commit.
\<close>

definition accented_message :: string where
  "accented_message = concat (replicate 2001 [CHR 0xC3, CHR 0xA9])"

definition long_commit :: commit where
  "long_commit =
     \<lparr> Commit_Message = accented_message,
       Commit_Author =
         \<lparr> Committer_Name = ''Octo Cat'', Committer_Email = ''cat@git.example'',
           Committer_Avatar = ''https://git.example/octocat.png'' \<rparr> \<rparr>"

definition long_hook :: hook where
  "long_hook = example_hook\<lparr>Hook_Title := accented_title, Hook_Message := []\<rparr>"

definition long_hook' :: hook where
  "long_hook' =
     long_hook\<lparr>Hook_Message := accented_message,
       Hook_AuthorAvatar := ''https://git.example/octocat.png''\<rparr>"

definition long_triggerer :: triggerer where
  "long_triggerer =
     example_triggerer\<lparr>commits_Find := (\<lambda>user slug sha. Ok (Some long_commit))\<rparr>"

definition long_build :: build where
  "long_build = new_build example_externals example_repo' long_hook'"




section \<open>Properties of truncation\<close>

subsection \<open>Decoding an encoded rune\<close>

lemma DecodeRune_Encode1:
  assumes "r \<le> 0x7F"
  shows "DecodeRune (EncodeRune r @ bs) = (r, 1)"
  using assms by (simp add: EncodeRune_def)

lemma DecodeRune_Encode2:
  assumes "0x7F < r" "r \<le> 0x7FF"
  shows "DecodeRune (EncodeRune r @ bs) = (r, 2)"
proof -
  define q where "q = r div 64"
  define m where "m = r mod 64"
  have r: "r = q * 64 + m" and m: "m < 64"
    by (simp_all add: q_def m_def)
  have q: "2 \<le> q" "q \<le> 31"
    using assms r m by arith+
  have enc: "EncodeRune r = [0xC0 + q, 0x80 + m]"
    using assms by (simp add: EncodeRune_def q_def m_def)
  have b0: "\<not> 0xC0 + q < 0x80" "0xC2 \<le> 0xC0 + q" "0xC0 + q \<le> 0xDF"
    using q by arith+
  show ?thesis
    unfolding enc using b0 m by (simp add: continuation_def r)
qed

lemma DecodeRune_RuneError:
  "DecodeRune ([0xEF, 0xBF, 0xBD] @ bs) = (RuneError, 3)"
  by (simp add: continuation_def RuneError_def)

lemma DecodeRune_Encode3:
  assumes "0x7FF < r" "r \<le> 0xFFFF" "\<not> (0xD800 \<le> r \<and> r \<le> 0xDFFF)"
  shows "DecodeRune (EncodeRune r @ bs) = (r, 3)"
proof -
  define q where "q = r div 4096"
  define p where "p = r div 64 mod 64"
  define m where "m = r mod 64"
  have "r div 4096 = r div 64 div 64"
    by (simp add: div_mult2_eq[symmetric])
  then have "r div 64 = q * 64 + p"
    unfolding q_def p_def by simp
  moreover have "r = r div 64 * 64 + m"
    by (simp add: m_def)
  ultimately have r: "r = q * 4096 + p * 64 + m"
    by arith
  have m: "m < 64" and p: "p < 64"
    by (simp_all add: m_def p_def)
  have q: "q \<le> 15"
    using assms r by arith
  have enc: "EncodeRune r = [0xE0 + q, 0x80 + p, 0x80 + m]"
    using assms by (auto simp add: EncodeRune_def q_def m_def p_def)
  have b0: "\<not> 0xE0 + q < 0x80" "\<not> (0xC2 \<le> 0xE0 + q \<and> 0xE0 + q \<le> 0xDF)"
    "0xE0 \<le> 0xE0 + q" "0xE0 + q \<le> 0xEF"
    using q by arith+
  have lo: "0xE0 + q = 0xE0 \<Longrightarrow> 0xA0 \<le> 0x80 + p"
    using assms r m p by arith
  have hi: "0xE0 + q = 0xED \<Longrightarrow> 0x80 + p \<le> 0x9F"
    using assms r m p by arith
  have b1: "continuation (if 0xE0 + q = 0xE0 then 0xA0 else 0x80)
              (if 0xE0 + q = 0xED then 0x9F else 0xBF) (0x80 + p)"
    unfolding continuation_def using lo hi p by (simp del: add_left_cancel add_diff_cancel_left')
  have b2: "continuation 0x80 0xBF (0x80 + m)"
    unfolding continuation_def using m by simp
  have "DecodeRune ([0xE0 + q, 0x80 + p, 0x80 + m] @ bs)
          = ((0xE0 + q - 0xE0) * 4096 + (0x80 + p - 0x80) * 64 + (0x80 + m - 0x80), 3)"
    using b0 b1 b2 by (simp del: add_left_cancel add_diff_cancel_left' One_nat_def)
  then show ?thesis
    unfolding enc by (simp add: r)
qed

lemma DecodeRune_Encode4:
  assumes "0xFFFF < r" "r \<le> 0x10FFFF"
  shows "DecodeRune (EncodeRune r @ bs) = (r, 4)"
proof -
  define q where "q = r div 262144"
  define o' where "o' = r div 4096 mod 64"
  define p where "p = r div 64 mod 64"
  define m where "m = r mod 64"
  have "r div 262144 = r div 4096 div 64" "r div 4096 = r div 64 div 64"
    by (simp_all add: div_mult2_eq[symmetric])
  then have "r div 4096 = q * 64 + o'" "r div 64 = r div 4096 * 64 + p"
    unfolding q_def o'_def p_def by simp_all
  moreover have "r = r div 64 * 64 + m"
    by (simp add: m_def)
  ultimately have r: "r = q * 262144 + o' * 4096 + p * 64 + m"
    by arith
  have m: "m < 64" and p: "p < 64" and o': "o' < 64"
    by (simp_all add: m_def p_def o'_def)
  have q: "q \<le> 4"
    using assms r by arith
  have enc: "EncodeRune r = [0xF0 + q, 0x80 + o', 0x80 + p, 0x80 + m]"
    using assms by (auto simp add: EncodeRune_def q_def m_def p_def o'_def)
  have b0: "\<not> 0xF0 + q < 0x80" "\<not> (0xC2 \<le> 0xF0 + q \<and> 0xF0 + q \<le> 0xDF)"
    "\<not> (0xE0 \<le> 0xF0 + q \<and> 0xF0 + q \<le> 0xEF)" "0xF0 \<le> 0xF0 + q" "0xF0 + q \<le> 0xF4"
    using q by arith+
  have lo: "0xF0 + q = 0xF0 \<Longrightarrow> 0x90 \<le> 0x80 + o'"
    using assms r m p o' by arith
  have hi: "0xF0 + q = 0xF4 \<Longrightarrow> 0x80 + o' \<le> 0x8F"
    using assms r m p o' by arith
  have b1: "continuation (if 0xF0 + q = 0xF0 then 0x90 else 0x80)
              (if 0xF0 + q = 0xF4 then 0x8F else 0xBF) (0x80 + o')"
    unfolding continuation_def using lo hi o' by (simp del: add_left_cancel add_diff_cancel_left')
  have b2: "continuation 0x80 0xBF (0x80 + p)" "continuation 0x80 0xBF (0x80 + m)"
    unfolding continuation_def using m p by simp_all
  have "DecodeRune ([0xF0 + q, 0x80 + o', 0x80 + p, 0x80 + m] @ bs)
          = ((0xF0 + q - 0xF0) * 262144 + (0x80 + o' - 0x80) * 4096 + (0x80 + p - 0x80) * 64
               + (0x80 + m - 0x80), 4)"
    using b0 b1 b2 by (simp del: add_left_cancel add_diff_cancel_left' One_nat_def)
  then show ?thesis
    unfolding enc by (simp add: r)
qed

lemma DecodeRune_Encode:
  "DecodeRune (EncodeRune r @ bs) = (normalize r, length (EncodeRune r))"
proof -
  consider "r \<le> 0x7F" | "0x7F < r" "r \<le> 0x7FF"
    | "0x7FF < r" "r \<le> 0xFFFF" "\<not> (0xD800 \<le> r \<and> r \<le> 0xDFFF)"
    | "0xFFFF < r" "r \<le> 0x10FFFF" | "0x10FFFF < r \<or> (0xD800 \<le> r \<and> r \<le> 0xDFFF)"
    by arith
  then show ?thesis
  proof cases
    case 1
    then show ?thesis
      using DecodeRune_Encode1[OF 1, of bs] by (simp add: normalize_def ValidRune_def EncodeRune_def)
  next
    case 2
    then show ?thesis
      using DecodeRune_Encode2[OF 2, of bs] by (simp add: normalize_def ValidRune_def EncodeRune_def)
  next
    case 3
    then show ?thesis
      using DecodeRune_Encode3[OF 3, of bs] by (auto simp add: normalize_def ValidRune_def EncodeRune_def)
  next
    case 4
    then show ?thesis
      using DecodeRune_Encode4[OF 4, of bs] by (simp add: normalize_def ValidRune_def EncodeRune_def)
  next
    case 5
    then have "EncodeRune r = [0xEF, 0xBF, 0xBD]" "normalize r = RuneError"
      by (auto simp add: EncodeRune_def normalize_def ValidRune_def)
    then show ?thesis
      using DecodeRune_RuneError[of bs] by simp
  qed
qed

lemma EncodeRune_not_Nil: "EncodeRune r \<noteq> []"
  by (simp add: EncodeRune_def)

lemma decode_bytes_Encode:
  "decode_bytes (EncodeRune r @ bs) = normalize r # decode_bytes bs"
proof (cases "EncodeRune r")
  case Nil
  then show ?thesis by (simp add: EncodeRune_not_Nil)
next
  case (Cons b0 rest)
  have "DecodeRune (b0 # rest @ bs) = (normalize r, Suc (length rest))"
    using DecodeRune_Encode[of r bs] Cons by simp
  then show ?thesis
    unfolding Cons by simp
qed

lemma decode_bytes_concat_Encode:
  "decode_bytes (concat (map EncodeRune rs)) = map normalize rs"
  by (induction rs) (simp_all add: decode_bytes_Encode)

lemma EncodeRune_bytes: "b \<in> set (EncodeRune r) \<Longrightarrow> b < 256"
proof -
  have "r \<le> 0x7FF \<Longrightarrow> r div 64 < 32" "r \<le> 0xFFFF \<Longrightarrow> r div 4096 < 16"
       "r \<le> 0x10FFFF \<Longrightarrow> r div 262144 < 5"
    by arith+
  moreover have "r mod 64 < 64" "r div 64 mod 64 < 64" "r div 4096 mod 64 < 64"
    by simp_all
  ultimately show "b \<in> set (EncodeRune r) \<Longrightarrow> b < 256"
    unfolding EncodeRune_def
    by (auto simp add: not_less not_le split: if_splits)
qed

lemma of_char_char_of_bytes:
  "\<forall>b \<in> set bs. b < 256 \<Longrightarrow> map of_char (map char_of bs :: string) = (bs :: nat list)"
  by (induction bs) simp_all

lemma of_char_char_of_Encode:
  "map of_char (map char_of (concat (map EncodeRune rs)) :: string) = concat (map EncodeRune rs)"
  by (rule of_char_char_of_bytes) (auto dest: EncodeRune_bytes)

lemma runes_of_string_of: "runes_of (string_of rs) = map normalize rs"
  unfolding runes_of_def string_of_def of_char_char_of_Encode
  by (rule decode_bytes_concat_Encode)

lemma ValidRune_RuneError: "ValidRune RuneError"
  by (simp add: ValidRune_def RuneError_def)

lemma ValidRune2:
  assumes "b0 \<le> 0xDF" "continuation 0x80 0xBF b1"
  shows "ValidRune ((b0 - 0xC0) * 64 + (b1 - 0x80))"
proof -
  have "b0 - 0xC0 \<le> 31" "b1 - 0x80 \<le> 63"
    using assms unfolding continuation_def by arith+
  then have "(b0 - 0xC0) * 64 + (b1 - 0x80) < 0xD800"
    by arith
  then show ?thesis
    by (simp add: ValidRune_def)
qed

lemma ValidRune3:
  assumes "0xE0 \<le> b0" "b0 \<le> 0xEF"
    and "continuation (if b0 = 0xE0 then 0xA0 else 0x80) (if b0 = 0xED then 0x9F else 0xBF) b1"
    and "continuation 0x80 0xBF b2"
  shows "ValidRune ((b0 - 0xE0) * 4096 + (b1 - 0x80) * 64 + (b2 - 0x80))"
proof -
  define q where "q = b0 - 0xE0"
  define p where "p = b1 - 0x80"
  define m where "m = b2 - 0x80"
  have b1: "b1 \<le> 0xBF" "b0 = 0xED \<longrightarrow> b1 \<le> 0x9F" and b2: "b2 \<le> 0xBF"
    using assms(3,4) unfolding continuation_def by (simp_all split: if_splits)
  have bounds: "q \<le> 15" "p \<le> 63" "m \<le> 63"
    unfolding q_def p_def m_def using assms(1,2) b1 b2 by arith+
  have ed: "q = 13 \<longrightarrow> p \<le> 31"
    unfolding q_def p_def using assms(1,2) b1 by arith
  consider "q < 13" | "q = 13" | "13 < q"
    by arith
  then have "q * 4096 + p * 64 + m < 0xD800
               \<or> (0xDFFF < q * 4096 + p * 64 + m \<and> q * 4096 + p * 64 + m \<le> 0x10FFFF)"
  proof cases
    case 1
    then show ?thesis using bounds by arith
  next
    case 2
    then show ?thesis using bounds ed by arith
  next
    case 3
    then show ?thesis using bounds by arith
  qed
  then show ?thesis
    unfolding ValidRune_def q_def p_def m_def .
qed

lemma ValidRune4:
  assumes "0xF0 \<le> b0" "b0 \<le> 0xF4"
    and "continuation (if b0 = 0xF0 then 0x90 else 0x80) (if b0 = 0xF4 then 0x8F else 0xBF) b1"
    and "continuation 0x80 0xBF b2" "continuation 0x80 0xBF b3"
  shows "ValidRune ((b0 - 0xF0) * 262144 + (b1 - 0x80) * 4096 + (b2 - 0x80) * 64 + (b3 - 0x80))"
proof -
  define q where "q = b0 - 0xF0"
  define o' where "o' = b1 - 0x80"
  define p where "p = b2 - 0x80"
  define m where "m = b3 - 0x80"
  have b1: "b1 \<le> 0xBF" "b0 = 0xF0 \<longrightarrow> 0x90 \<le> b1" "b0 = 0xF4 \<longrightarrow> b1 \<le> 0x8F"
    and b2: "b2 \<le> 0xBF" and b3: "b3 \<le> 0xBF"
    using assms(3,4,5) unfolding continuation_def by (simp_all split: if_splits)
  have bounds: "q \<le> 4" "o' \<le> 63" "p \<le> 63" "m \<le> 63"
    unfolding q_def o'_def p_def m_def using assms(1,2) b1 b2 b3 by arith+
  have lo: "q = 0 \<longrightarrow> 16 \<le> o'" and hi: "q = 4 \<longrightarrow> o' \<le> 15"
    unfolding q_def o'_def using assms(1,2) b1 by arith+
  consider "q = 0" | "0 < q" "q < 4" | "q = 4"
    using bounds by arith
  then have "0xDFFF < q * 262144 + o' * 4096 + p * 64 + m
               \<and> q * 262144 + o' * 4096 + p * 64 + m \<le> 0x10FFFF"
  proof cases
    case 1
    then show ?thesis using bounds lo by arith
  next
    case 2
    then show ?thesis using bounds by arith
  next
    case 3
    then show ?thesis using bounds hi by arith
  qed
  then show ?thesis
    unfolding ValidRune_def q_def o'_def p_def m_def by simp
qed

lemma fst_if_pair: "fst (if c then (a, m) else (b, n)) = (if c then a else b)"
  by simp

lemma DecodeRune_valid: "ValidRune (fst (DecodeRune bs))"
proof (cases bs)
  case Nil
  then show ?thesis by (simp add: ValidRune_RuneError)
next
  case (Cons b0 bs1)
  consider "b0 < 0x80" | "0xC2 \<le> b0" "b0 \<le> 0xDF" | "0xE0 \<le> b0" "b0 \<le> 0xEF"
    | "0xF0 \<le> b0" "b0 \<le> 0xF4" | "0x80 \<le> b0" "b0 < 0xC2" | "0xF4 < b0"
    by arith
  then show ?thesis
  proof cases
    case 1
    then show ?thesis
      unfolding Cons by (simp add: ValidRune_def)
  next
    case 2
    then have n: "\<not> b0 < 0x80"
      by arith
    show ?thesis
    proof (cases bs1)
      case Nil
      with 2 n show ?thesis
        unfolding Cons by (simp add: ValidRune_RuneError)
    next
      case c1: (Cons b1 bs2)
      have "fst (DecodeRune (b0 # b1 # bs2))
              = (if continuation 0x80 0xBF b1 then (b0 - 0xC0) * 64 + (b1 - 0x80) else RuneError)"
        using 2 n by (simp split del: if_split cong: if_weak_cong add: fst_if_pair)
      then show ?thesis
        unfolding Cons c1 using ValidRune2[OF 2(2), of b1] ValidRune_RuneError
        by (simp split del: if_split) presburger
    qed
  next
    case 3
    then have n: "\<not> b0 < 0x80" "\<not> (0xC2 \<le> b0 \<and> b0 \<le> 0xDF)"
      by arith+
    show ?thesis
    proof (cases "\<exists>b1 b2 bs3. bs1 = b1 # b2 # bs3")
      case False
      then have "DecodeRune (b0 # bs1) = (RuneError, 1)"
        using 3 n by (simp split: list.splits)
      then show ?thesis
        unfolding Cons by (simp add: ValidRune_RuneError)
    next
      case True
      then obtain b1 b2 bs3 where c: "bs1 = b1 # b2 # bs3"
        by blast
      have "fst (DecodeRune (b0 # b1 # b2 # bs3))
              = (if continuation (if b0 = 0xE0 then 0xA0 else 0x80)
                      (if b0 = 0xED then 0x9F else 0xBF) b1
                    \<and> continuation 0x80 0xBF b2
                 then (b0 - 0xE0) * 4096 + (b1 - 0x80) * 64 + (b2 - 0x80) else RuneError)"
        using 3 n by (simp split del: if_split cong: if_weak_cong add: fst_if_pair)
      then show ?thesis
        unfolding Cons c using ValidRune3[OF 3, of b1 b2] ValidRune_RuneError
        by (simp split del: if_split) presburger
    qed
  next
    case 4
    then have n: "\<not> b0 < 0x80" "\<not> (0xC2 \<le> b0 \<and> b0 \<le> 0xDF)" "\<not> (0xE0 \<le> b0 \<and> b0 \<le> 0xEF)"
      by arith+
    show ?thesis
    proof (cases "\<exists>b1 b2 b3 bs4. bs1 = b1 # b2 # b3 # bs4")
      case False
      then have "DecodeRune (b0 # bs1) = (RuneError, 1)"
        using 4 n by (simp split: list.splits)
      then show ?thesis
        unfolding Cons by (simp add: ValidRune_RuneError)
    next
      case True
      then obtain b1 b2 b3 bs4 where c: "bs1 = b1 # b2 # b3 # bs4"
        by blast
      have "fst (DecodeRune (b0 # b1 # b2 # b3 # bs4))
              = (if continuation (if b0 = 0xF0 then 0x90 else 0x80)
                      (if b0 = 0xF4 then 0x8F else 0xBF) b1
                    \<and> continuation 0x80 0xBF b2 \<and> continuation 0x80 0xBF b3
                 then (b0 - 0xF0) * 262144 + (b1 - 0x80) * 4096 + (b2 - 0x80) * 64 + (b3 - 0x80)
                 else RuneError)"
        using 4 n by (simp split del: if_split cong: if_weak_cong add: fst_if_pair)
      then show ?thesis
        unfolding Cons c using ValidRune4[OF 4, of b1 b2 b3] ValidRune_RuneError
        by (simp split del: if_split) presburger
    qed
  next
    case 5
    then have "\<not> b0 < 0x80" "\<not> (0xC2 \<le> b0 \<and> b0 \<le> 0xDF)" "\<not> (0xE0 \<le> b0 \<and> b0 \<le> 0xEF)"
      "\<not> (0xF0 \<le> b0 \<and> b0 \<le> 0xF4)"
      by arith+
    with 5 show ?thesis
      unfolding Cons by (simp split del: if_split cong: if_weak_cong add: ValidRune_RuneError)
  next
    case 6
    then have "\<not> b0 < 0x80" "\<not> (0xC2 \<le> b0 \<and> b0 \<le> 0xDF)" "\<not> (0xE0 \<le> b0 \<and> b0 \<le> 0xEF)"
      "\<not> (0xF0 \<le> b0 \<and> b0 \<le> 0xF4)"
      by arith+
    with 6 show ?thesis
      unfolding Cons by (simp split del: if_split cong: if_weak_cong add: ValidRune_RuneError)
  qed
qed

lemma decode_bytes_valid: "r \<in> set (decode_bytes bs) \<Longrightarrow> ValidRune r"
proof (induction bs arbitrary: r rule: decode_bytes.induct)
  case 1
  then show ?case by simp
next
  case (2 b0 bs)
  obtain r0 n where d: "DecodeRune (b0 # bs) = (r0, n)"
    by (cases "DecodeRune (b0 # bs)")
  have "ValidRune r0"
    using DecodeRune_valid[of "b0 # bs"] d by simp
  with 2 d show ?case
    by (auto simp del: DecodeRune.simps)
qed

lemma normalize_decode_bytes: "map normalize (decode_bytes bs) = decode_bytes bs"
  by (rule map_idI) (simp add: normalize_def decode_bytes_valid)

lemma runes_of_trunc: "runes_of (trunc s i) = take i (runes_of s)"
proof (cases "length (runes_of s) > i")
  case True
  have "map normalize (take i (runes_of s)) = take i (runes_of s)"
    by (rule map_idI) (auto simp add: normalize_def runes_of_def dest: in_set_takeD decode_bytes_valid)
  with True show ?thesis
    by (simp add: trunc_def runes_of_string_of)
next
  case False
  then show ?thesis
    by (simp add: trunc_def)
qed

section \<open>Properties of the triggerer\<close>

subsection \<open>Sequencing\<close>

lemma fst_andThen:
  "fst (andThen m f) = fst m @ (case snd m of Next x \<Rightarrow> fst (f x) | Return b e \<Rightarrow> [] | Panicked \<Rightarrow> [])"
  by (cases m; cases "snd m") (auto simp add: andThen_def split: prod.splits)

lemma snd_andThen:
  "snd (andThen m f) = (case snd m of Next x \<Rightarrow> snd (f x) | Return b e \<Rightarrow> Return b e | Panicked \<Rightarrow> Panicked)"
  by (cases m; cases "snd m") (auto simp add: andThen_def split: prod.splits)

lemma andThen_Next: "andThen (tr, Next x) f = (tr @ fst (f x), snd (f x))"
  by (simp add: andThen_def split: prod.splits)

lemma andThen_Return: "andThen (tr, Return b e) f = (tr, Return b e)"
  by (simp add: andThen_def)

lemma andThen_Panicked: "andThen (tr, Panicked) f = (tr, Panicked)"
  by (simp add: andThen_def)

lemma fatal_Ok: "fatal c (Ok x) = ([c], Next x)"
  by (simp add: fatal_def)

lemma fatal_Fail: "fatal c (Fail err) = ([c], Return None (Some err))"
  by (simp add: fatal_def)

lemma fatal_Panic: "fatal c Panic = ([c], Panicked)"
  by (simp add: fatal_def)

lemma fst_fatal: "fst (fatal c r) = [c]"
  by (cases r) (simp_all add: fatal_def)

lemma fst_logged: "fst (logged c r) = [c]"
  by (cases r) (simp_all add: logged_def)

subsection \<open>The pieces\<close>

lemma fst_augment:
  "c \<in> set (fst (augment t user repo base)) \<Longrightarrow> c = CommitsFind user (Repo_Slug repo) (Hook_After base)"
  by (auto simp add: augment_def split: if_splits outcome.splits option.splits)

lemma snd_augment_Return: "snd (augment t user repo base) \<noteq> Return b e"
  by (auto simp add: augment_def split: if_splits outcome.splits option.splits)

lemma augment_Title:
  "augment t user repo base = (tr, Next base1) \<Longrightarrow> Hook_Title base1 = Hook_Title base"
  by (auto simp add: augment_def split: if_splits outcome.splits option.splits)

lemma fst_schedule_stages:
  "c \<in> set (fst (schedule_stages t stages)) \<Longrightarrow> \<exists>stage. c = SchedSchedule stage"
  by (induction stages) (auto simp add: fst_andThen fst_fatal split: if_splits flow.splits)

lemma scheduled_append: "scheduled (tr @ tr') = scheduled tr @ scheduled tr'"
  by (induction tr rule: scheduled.induct) simp_all

lemma persisted_append: "persisted (tr @ tr') = persisted tr @ persisted tr'"
  by (induction tr rule: persisted.induct) simp_all

lemma schedule_stages_Next:
  "snd (schedule_stages t stages) = Next u \<Longrightarrow>
     scheduled (fst (schedule_stages t stages))
       = filter (\<lambda>stage. Stage_DependsOn stage = [] \<and> Stage_Status stage \<noteq> StatusBlocked) stages
     \<and> persisted (fst (schedule_stages t stages)) = []"
  by (induction stages)
    (auto simp add: fst_andThen snd_andThen fatal_def scheduled_append persisted_append
       split: if_splits outcome.splits)

lemma new_stage_Status:
  "Stage_Status (new_stage X repo verified i match) =
     (if \<not> verified then StatusBlocked
      else if Pipeline_DependsOn match = [] then StatusPending else StatusWaiting)"
  by (simp add: new_stage_def Let_def)

lemma new_stage_DependsOn:
  "Stage_DependsOn (new_stage X repo verified i match) = Pipeline_DependsOn match"
  by (simp add: new_stage_def Let_def)

lemma make_stages_Status:
  "stage \<in> set (make_stages X repo verified i matched) \<Longrightarrow>
     Stage_Status stage =
       (if \<not> verified then StatusBlocked
        else if Stage_DependsOn stage = [] then StatusPending else StatusWaiting)"
  by (induction matched arbitrary: i) (auto simp add: new_stage_Status new_stage_DependsOn)

lemma createBuildError_Create:
  assumes "BuildsCreate b stages \<in> set (fst (createBuildError X t repo base message))"
  shows "\<exists>repo'. repos_Increment t repo = Ok repo' \<and> b = error_build X repo' base message
           \<and> stages = []"
  using assms
  by (auto simp add: createBuildError_def andThen_def fatal_def Let_def split: outcome.splits)

lemma dispatch_Create:
  assumes "BuildsCreate b stages \<in> set (fst (dispatch X t repo user base data manifest))"
  shows "\<exists>repo'. repos_Increment t repo = Ok repo'
           \<and> match_pipelines X repo base (Manifest_Resources manifest) \<noteq> []
           \<and> b = new_build X repo' base
           \<and> stages = make_stages X repo' (verify X repo base data) 0
                (match_pipelines X repo base (Manifest_Resources manifest))"
  using assms
  by (cases "repos_Increment t repo")
    (auto simp add: dispatch_def Let_def fatal_Ok fatal_Fail fatal_Panic andThen_Next
        andThen_Return andThen_Panicked fst_andThen fst_fatal fst_logged
        split: if_splits flow.splits dest: fst_schedule_stages)

lemma Trigger_manifest_Create:
  assumes "BuildsCreate b stages \<in> set (fst (Trigger_manifest X t repo user base data))"
  shows "\<exists>repo'. repos_Increment t repo = Ok repo'
         \<and> ((\<exists>message. b = error_build X repo' base message \<and> stages = [])
            \<or> (\<exists>manifest. yaml_ParseString X data = Inr manifest
                \<and> linter_Manifest X manifest (Repo_Trusted repo) = None
                \<and> match_pipelines X repo base (Manifest_Resources manifest) \<noteq> []
                \<and> b = new_build X repo' base
                \<and> stages = make_stages X repo' (verify X repo base data) 0
                     (match_pipelines X repo base (Manifest_Resources manifest))))"
  using assms unfolding Trigger_manifest_def
  by (auto split: sum.splits option.splits dest!: createBuildError_Create dispatch_Create)

text \<open>A run that reaches the parser: the calls made so far, then \<open>Trigger_manifest\<close>.\<close>

lemma Trigger_body_reaches:
  assumes "reaches_parser X t repo base user base1 data"
  shows "Trigger_body X t repo base =
           (calls_before_parser X t repo base user base1
              @ fst (Trigger_manifest X t repo user base1 data),
            snd (Trigger_manifest X t repo user base1 data))"
proof -
  obtain tr1 where aug: "augment t user repo base = (tr1, Next base1)"
    using assms by (cases "augment t user repo base") (simp add: reaches_parser_def)
  obtain raw where raw: "config_Find t user repo (draft_build X repo base1) = Ok raw"
    and data: "converter_ConvertString X (Config_Data raw) (Repo_Config repo) (Hook_Ref base1)
                 = Inr data"
    using assms by (auto simp add: reaches_parser_def split: outcome.splits)
  show ?thesis
    using assms aug raw data
    by (simp add: reaches_parser_def Trigger_body_def calls_before_parser_def fatal_Ok
          fatal_pure_def andThen_Next)
qed

text \<open>A run that does not reach the parser returns no build and calls only the three finders.\<close>

lemma finder_augment: "c \<in> set (fst (augment t user repo base)) \<Longrightarrow> finder c"
  by (auto dest: fst_augment)

lemma Trigger_body_early:
  assumes "\<forall>user base1 data. \<not> reaches_parser X t repo base user base1 data"
  shows "snd (Trigger_body X t repo base) \<noteq> Return (Some b) e
         \<and> (\<forall>c \<in> set (fst (Trigger_body X t repo base)). finder c)"
proof (cases "gated X repo base")
  case True
  then show ?thesis by (simp add: Trigger_body_def)
next
  case ng: False
  show ?thesis
  proof (cases "users_Find t (Repo_UserID repo)")
    case (Fail err)
    with ng show ?thesis
      by (simp add: Trigger_body_def fatal_Fail andThen_Return)
  next
    case Panic
    with ng show ?thesis
      by (simp add: Trigger_body_def fatal_Panic andThen_Panicked)
  next
    case (Ok user)
    show ?thesis
    proof (cases "User_Active user")
      case False
      with ng Ok show ?thesis
        by (simp add: Trigger_body_def fatal_Ok andThen_Next)
    next
      case active: True
      obtain tr1 f1 where aug: "augment t user repo base = (tr1, f1)"
        by (cases "augment t user repo base")
      have tr1: "\<forall>c \<in> set tr1. finder c"
        using finder_augment[of _ t user repo base] aug by auto
      show ?thesis
      proof (cases f1)
        case (Return b' e')
        then show ?thesis
          using snd_augment_Return[of t user repo base b' e'] aug by simp
      next
        case Panicked
        with ng Ok active aug tr1 show ?thesis
          by (simp add: Trigger_body_def fatal_Ok andThen_Next andThen_Panicked)
      next
        case (Next base1)
        show ?thesis
        proof (cases "config_Find t user repo (draft_build X repo base1)")
          case (Fail err)
          with ng Ok active aug tr1 Next show ?thesis
            by (simp add: Trigger_body_def fatal_Ok fatal_Fail andThen_Next andThen_Return)
        next
          case Panic
          with ng Ok active aug tr1 Next show ?thesis
            by (simp add: Trigger_body_def fatal_Ok fatal_Panic andThen_Next andThen_Panicked)
        next
          case raw: (Ok raw)
          show ?thesis
          proof (cases "converter_ConvertString X (Config_Data raw) (Repo_Config repo)
                          (Hook_Ref base1)")
            case (Inl err)
            with ng Ok active aug tr1 Next raw show ?thesis
              by (simp add: Trigger_body_def fatal_Ok fatal_pure_def andThen_Next andThen_Return)
          next
            case (Inr data)
            with ng Ok active aug Next raw have "reaches_parser X t repo base user base1 data"
              by (simp add: reaches_parser_def)
            with assms show ?thesis by blast
          qed
        qed
      qed
    qed
  qed
qed

lemma finder_calls_before_parser:
  "c \<in> set (calls_before_parser X t repo base user base1) \<Longrightarrow> finder c"
  by (auto simp add: calls_before_parser_def dest: finder_augment)

text \<open>Every call of the build store in a run, traced back to what the collaborators returned.\<close>

lemma Trigger_Create:
  assumes "BuildsCreate b stages \<in> set (fst (Trigger X t repo base))"
  shows "\<exists>user base1 data repo'.
           reaches_parser X t repo base user base1 data
         \<and> repos_Increment t repo = Ok repo'
         \<and> ((\<exists>message. b = error_build X repo' base1 message \<and> stages = [])
            \<or> (\<exists>manifest. yaml_ParseString X data = Inr manifest
                \<and> linter_Manifest X manifest (Repo_Trusted repo) = None
                \<and> match_pipelines X repo base1 (Manifest_Resources manifest) \<noteq> []
                \<and> b = new_build X repo' base1
                \<and> stages = make_stages X repo' (verify X repo base1 data) 0
                     (match_pipelines X repo base1 (Manifest_Resources manifest))))"
proof -
  have body: "BuildsCreate b stages \<in> set (fst (Trigger_body X t repo base))"
    using assms by (simp add: Trigger_def split: prod.splits flow.splits)
  then obtain user base1 data where reach: "reaches_parser X t repo base user base1 data"
    using Trigger_body_early[of X t repo base] by fastforce
  have "BuildsCreate b stages \<notin> set (calls_before_parser X t repo base user base1)"
    using finder_calls_before_parser[of "BuildsCreate b stages"] by auto
  with body have "BuildsCreate b stages \<in> set (fst (Trigger_manifest X t repo user base1 data))"
    by (simp add: Trigger_body_reaches[OF reach])
  from Trigger_manifest_Create[OF this] reach show ?thesis
    by blast
qed

subsection \<open>Gating, the inactive owner, no match, the error build\<close>

text \<open>
  Claim C6. A hook with a skip directive, a pull request on a repository that ignores pull
  requests, and a pull request on a repository that ignores forks whose fork slug is not
  the slug of the repository under \<^verbatim>\<open>strings.EqualFold\<close>: each returns \<^verbatim>\<open>nil, nil\<close>
  with an empty trace, that is, before any collaborator call.
\<close>

theorem Trigger_gating:
  assumes "skipMessage X base
           \<or> (Hook_Event base = EventPullRequest \<and> Repo_IgnorePulls repo)
           \<or> (Hook_Event base = EventPullRequest \<and> Repo_IgnoreForks repo
               \<and> \<not> strings_EqualFold X (Hook_Fork base) (Repo_Slug repo))"
  shows "Trigger X t repo base = ([], None, None)"
proof -
  have "gated X repo base"
    using assms by (auto simp add: gated_def)
  then show ?thesis
    by (simp add: Trigger_def Trigger_body_def)
qed

text \<open>
  Claim C9. When the owner of the repository is found but is not active, \<^verbatim>\<open>Trigger\<close>
  returns \<^verbatim>\<open>nil, nil\<close>, and the look-up of the owner is its only collaborator call (a
  gated hook returns before it): no commit, no configuration, no increment, no build.
\<close>

theorem Trigger_inactive_owner:
  assumes "users_Find t (Repo_UserID repo) = Ok user"
    and "User_Active user = False"
  shows "Trigger X t repo base =
           (if gated X repo base then [] else [UsersFind (Repo_UserID repo)], None, None)"
  using assms by (simp add: Trigger_def Trigger_body_def fatal_Ok andThen_Next)

lemma Trigger_reaches:
  assumes "reaches_parser X t repo base user base1 data"
    and "Trigger_manifest X t repo user base1 data = (tr2, Return b e)"
  shows "Trigger X t repo base = (calls_before_parser X t repo base user base1 @ tr2, b, e)"
  using assms by (simp add: Trigger_def Trigger_body_reaches)

text \<open>
  Claim C5. When the invocation reaches the parser, the manifest parses and passes the
  linter, and no pipeline matches, then \<^verbatim>\<open>Trigger\<close> returns \<^verbatim>\<open>nil, nil\<close> after the
  look-ups made so far: the trace holds no call of \<^verbatim>\<open>Increment\<close> and no call of
  \<^verbatim>\<open>Create\<close>.
\<close>

theorem Trigger_no_match:
  assumes "reaches_parser X t repo base user base1 data"
    and "yaml_ParseString X data = Inr manifest"
    and "linter_Manifest X manifest (Repo_Trusted repo) = None"
    and "match_pipelines X repo base1 (Manifest_Resources manifest) = []"
  shows "Trigger X t repo base = (calls_before_parser X t repo base user base1, None, None)
         \<and> (\<forall>r. ReposIncrement r \<notin> set (fst (Trigger X t repo base)))
         \<and> (\<forall>b stages. BuildsCreate b stages \<notin> set (fst (Trigger X t repo base)))"
proof -
  have "Trigger_manifest X t repo user base1 data = ([], Return None None)"
    using assms(2-4) by (simp add: Trigger_manifest_def dispatch_def)
  from Trigger_reaches[OF assms(1) this]
  have run: "Trigger X t repo base = (calls_before_parser X t repo base user base1, None, None)"
    by simp
  have "\<forall>c \<in> set (calls_before_parser X t repo base user base1). finder c"
    by (auto dest: finder_calls_before_parser)
  then show ?thesis
    unfolding run by auto
qed

text \<open>
  Claim C3, as amended. When the invocation reaches the parser, the parser or the linter
  fails with the error \<open>err\<close>, and both the increment of the counter and the call of the
  build store succeed, then the build store receives one build, with the status error, the
  message of \<open>err\<close> as its error, the time of the fifth call of the clock as its
  finishing time, and no stage; the invocation returns that build with a nil error; and the
  trace holds no call of the scheduler, of the status service or of the webhook sender.
\<close>

theorem Trigger_error_build:
  assumes "reaches_parser X t repo base user base1 data"
    and "yaml_ParseString X data = Inl err
         \<or> (\<exists>manifest. yaml_ParseString X data = Inr manifest
              \<and> linter_Manifest X manifest (Repo_Trusted repo) = Some err)"
    and "repos_Increment t repo = Ok repo'"
    and "builds_Create t (error_build X repo' base1 (Error_message err)) [] = Ok ()"
  shows "Trigger X t repo base =
           (calls_before_parser X t repo base user base1
              @ [ReposIncrement repo, BuildsCreate (error_build X repo' base1 (Error_message err)) []],
            Some (error_build X repo' base1 (Error_message err)), None)
         \<and> Build_Status (error_build X repo' base1 (Error_message err)) = StatusError
         \<and> Build_Error (error_build X repo' base1 (Error_message err)) = Error_message err
         \<and> Build_Finished (error_build X repo' base1 (Error_message err)) = time_Now X 4
         \<and> list_all (\<lambda>c. \<not> fanout c) (fst (Trigger X t repo base))"
proof -
  let ?b = "error_build X repo' base1 (Error_message err)"
  have cbe: "createBuildError X t repo base1 (Error_message err)
               = ([ReposIncrement repo, BuildsCreate ?b []], Return (Some ?b) None)"
    using assms(3,4) by (simp add: createBuildError_def fatal_Ok andThen_Next Let_def)
  have "Trigger_manifest X t repo user base1 data
          = ([ReposIncrement repo, BuildsCreate ?b []], Return (Some ?b) None)"
    using assms(2) cbe by (auto simp add: Trigger_manifest_def)
  from Trigger_reaches[OF assms(1) this]
  have run: "Trigger X t repo base =
           (calls_before_parser X t repo base user base1 @ [ReposIncrement repo, BuildsCreate ?b []],
            Some ?b, None)" .
  have "\<forall>c \<in> set (calls_before_parser X t repo base user base1). \<not> fanout c"
  proof
    fix c assume "c \<in> set (calls_before_parser X t repo base user base1)"
    then have "finder c" by (rule finder_calls_before_parser)
    then show "\<not> fanout c" by (cases c) simp_all
  qed
  then show ?thesis
    unfolding run by (simp add: error_build_def list_all_iff)
qed

subsection \<open>The stages and the build of the main path\<close>

text \<open>
  Claim C1. Whenever an invocation hands a build with its stages to the build store, each of
  the stages has the status that lines 336 and 355-359 give it: blocked when the signature
  was not verified, otherwise pending when the stage depends on nothing, otherwise waiting.
  The verification is the one of lines 221-226, for the hook and the converted text with
  which the invocation reached the parser. (The build of the error path has no stage.)
\<close>

theorem stage_initial_status:
  assumes "BuildsCreate b stages \<in> set (fst (Trigger X t repo base))"
    and "stage \<in> set stages"
  shows "\<exists>user base1 data.
           reaches_parser X t repo base user base1 data
         \<and> Stage_Status stage =
             (if verify X repo base1 data = False then StatusBlocked
              else if Stage_DependsOn stage = [] then StatusPending
              else StatusWaiting)"
proof -
  from Trigger_Create[OF assms(1)] assms(2)
  obtain user base1 data repo' matched where
    reach: "reaches_parser X t repo base user base1 data"
    and stages: "stages = make_stages X repo' (verify X repo base1 data) 0 matched"
    by auto
  from assms(2) have "Stage_Status stage =
             (if verify X repo base1 data = False then StatusBlocked
              else if Stage_DependsOn stage = [] then StatusPending
              else StatusWaiting)"
    unfolding stages by (auto dest: make_stages_Status)
  with reach show ?thesis
    by blast
qed

lemma new_stage_flags:
  "Stage_OnSuccess (new_stage X repo verified i match)
     = Condition_Match X (Pipeline_Trigger_Status match) StatusPassing"
  "Stage_OnFailure (new_stage X repo verified i match)
     = (Condition_Match X (Pipeline_Trigger_Status match) StatusFailing
        \<and> (Condition_Include (Pipeline_Trigger_Status match) \<noteq> []
           \<or> Condition_Exclude (Pipeline_Trigger_Status match) \<noteq> []))"
  by (auto simp add: new_stage_def Let_def)

lemma Condition_Match_empty:
  "Condition_Include c = [] \<Longrightarrow> Condition_Exclude c = [] \<Longrightarrow> Condition_Match X c v"
  by (simp add: Condition_Match_def)

lemma make_stages_flags:
  "list_all2 (flags_follow_status X) matched (make_stages X repo verified i matched)"
  by (induction matched arbitrary: i)
    (simp_all add: flags_follow_status_def new_stage_flags Condition_Match_empty)

text \<open>
  Claim C7. The stages that the main path hands to the build store are one for each matched
  pipeline, in order, and the two trigger flags of each follow the status constraint of its
  pipeline: \<^verbatim>\<open>OnSuccess\<close> is the match of \<^verbatim>\<open>success\<close> (true when both lists are empty),
  \<^verbatim>\<open>OnFailure\<close> is the match of \<^verbatim>\<open>failure\<close> together with a non-empty list.
\<close>

theorem stage_trigger_flags:
  assumes "BuildsCreate b stages \<in> set (fst (Trigger X t repo base))"
    and "stages \<noteq> []"
  shows "\<exists>user base1 data manifest.
           reaches_parser X t repo base user base1 data
         \<and> yaml_ParseString X data = Inr manifest
         \<and> list_all2 (flags_follow_status X)
             (match_pipelines X repo base1 (Manifest_Resources manifest)) stages"
proof -
  from Trigger_Create[OF assms(1)] assms(2)
  obtain user base1 data repo' manifest where
    reach: "reaches_parser X t repo base user base1 data"
    and parse: "yaml_ParseString X data = Inr manifest"
    and stages: "stages = make_stages X repo' (verify X repo base1 data) 0
                   (match_pipelines X repo base1 (Manifest_Resources manifest))"
    by auto
  show ?thesis
    using reach parse make_stages_flags unfolding stages by blast
qed

lemma trunc_short: "length (runes_of s) \<le> i \<Longrightarrow> trunc s i = s"
  by (simp add: trunc_def)

text \<open>
  Claim C4, as amended. The build that the main path hands to the build store (the one with
  stages) has as title and message the title and message of the hook after lines 117-131,
  cut by \<^verbatim>\<open>trunc\<close> to 2000 code points: the code points of the result are the first
  2000 code points of the text, so no encoding of a code point is cut, and a text of at
  most 2000 code points is copied unchanged.
\<close>

theorem title_message_truncated:
  assumes "BuildsCreate b stages \<in> set (fst (Trigger X t repo base))"
    and "stages \<noteq> []"
  shows "\<exists>user base1 data.
           reaches_parser X t repo base user base1 data
         \<and> Hook_Title base1 = Hook_Title base
         \<and> Build_Title b = trunc (Hook_Title base1) 2000
         \<and> Build_Message b = trunc (Hook_Message base1) 2000
         \<and> runes_of (Build_Title b) = take 2000 (runes_of (Hook_Title base1))
         \<and> runes_of (Build_Message b) = take 2000 (runes_of (Hook_Message base1))
         \<and> (if length (runes_of (Hook_Title base1)) \<le> 2000
            then Build_Title b = Hook_Title base1 else True)
         \<and> (if length (runes_of (Hook_Message base1)) \<le> 2000
            then Build_Message b = Hook_Message base1 else True)"
proof -
  from Trigger_Create[OF assms(1)] assms(2)
  obtain user base1 data repo' where
    reach: "reaches_parser X t repo base user base1 data"
    and b: "b = new_build X repo' base1"
    by auto
  have title: "Hook_Title base1 = Hook_Title base"
    using reach augment_Title[of t user repo base "fst (augment t user repo base)" base1]
    by (cases "augment t user repo base") (simp add: reaches_parser_def)
  have tr: "Build_Title b = trunc (Hook_Title base1) 2000"
    "Build_Message b = trunc (Hook_Message base1) 2000"
    unfolding b by (simp_all add: new_build_def)
  have "Hook_Title base1 = Hook_Title base
         \<and> Build_Title b = trunc (Hook_Title base1) 2000
         \<and> Build_Message b = trunc (Hook_Message base1) 2000
         \<and> runes_of (Build_Title b) = take 2000 (runes_of (Hook_Title base1))
         \<and> runes_of (Build_Message b) = take 2000 (runes_of (Hook_Message base1))
         \<and> (if length (runes_of (Hook_Title base1)) \<le> 2000
            then Build_Title b = Hook_Title base1 else True)
         \<and> (if length (runes_of (Hook_Message base1)) \<le> 2000
            then Build_Message b = Hook_Message base1 else True)"
    unfolding tr using title by (simp add: runes_of_trunc trunc_short)
  with reach show ?thesis
    by blast
qed

text \<open>
  Claim C8. Truncation to 2000 is idempotent, for every string, valid UTF-8 or not: the
  truncated string has at most 2000 code points, so the second call returns it as it is.
\<close>

theorem trunc_idempotent: "trunc (trunc s 2000) 2000 = trunc s 2000"
proof -
  have "runes_of (trunc s 2000) = take 2000 (runes_of s)"
    by (rule runes_of_trunc)
  then have "\<not> length (runes_of (trunc s 2000)) > 2000"
    by simp
  then show ?thesis
    by (simp add: trunc_def[of "trunc s 2000"])
qed

subsection \<open>Scheduling\<close>

lemma finder_quiet:
  "\<forall>c \<in> set tr. finder c \<Longrightarrow> scheduled tr = [] \<and> persisted tr = []"
proof (induction tr)
  case Nil
  then show ?case by simp
next
  case (Cons c tr)
  then show ?case by (cases c) simp_all
qed

lemma createBuildError_quiet:
  "scheduled (fst (createBuildError X t repo base message)) = []
   \<and> persisted (fst (createBuildError X t repo base message)) = []"
  by (cases "repos_Increment t repo")
    (auto simp add: createBuildError_def fatal_Ok fatal_Fail fatal_Panic andThen_Next
       andThen_Return andThen_Panicked Let_def split: outcome.splits)

lemma snd_schedule_stages_Return:
  "snd (schedule_stages t stages) = Return b e \<Longrightarrow> b = None"
  by (induction stages)
    (auto simp add: snd_andThen fatal_def split: if_splits outcome.splits)

lemma make_stages_filter:
  "filter (\<lambda>stage. Stage_DependsOn stage = [] \<and> Stage_Status stage \<noteq> StatusBlocked)
     (make_stages X repo verified i matched)
   = filter (\<lambda>stage. Stage_Status stage = StatusPending \<and> Stage_DependsOn stage = [])
       (make_stages X repo verified i matched)"
  by (rule filter_cong) (auto dest!: make_stages_Status split: if_splits)

lemma dispatch_Some:
  assumes "snd (dispatch X t repo user base data manifest) = Return (Some b) e"
  shows "scheduled (fst (dispatch X t repo user base data manifest))
           = filter (\<lambda>stage. Stage_Status stage = StatusPending \<and> Stage_DependsOn stage = [])
               (persisted (fst (dispatch X t repo user base data manifest)))"
proof -
  let ?matched = "match_pipelines X repo base (Manifest_Resources manifest)"
  have matched: "?matched \<noteq> []"
    using assms by (auto simp add: dispatch_def Let_def)
  obtain repo' where inc: "repos_Increment t repo = Ok repo'"
    using assms matched
    by (cases "repos_Increment t repo")
      (auto simp add: dispatch_def Let_def fatal_Fail fatal_Panic andThen_Return andThen_Panicked)
  let ?build = "new_build X repo' base"
  let ?stages = "make_stages X repo' (verify X repo base data) 0 ?matched"
  let ?payload = "\<lparr> Webhook_Event = WebhookEventBuild, Webhook_Action = WebhookActionCreated,
                    Webhook_User = user, Webhook_Repo = repo', Webhook_Build = ?build \<rparr>"
  have create: "builds_Create t ?build ?stages = Ok ()"
    using assms matched inc
    by (cases "builds_Create t ?build ?stages")
      (auto simp add: dispatch_def Let_def fatal_Ok fatal_Fail fatal_Panic andThen_Next
         andThen_Return andThen_Panicked)
  obtain trs fs where sched: "schedule_stages t ?stages = (trs, fs)"
    by (cases "schedule_stages t ?stages")
  have status: "status_Send t user repo' ?build \<noteq> Panic"
    using assms matched inc create
    by (auto simp add: dispatch_def Let_def fatal_Ok logged_def andThen_Next andThen_Panicked)
  then have logged1: "logged (StatusSend user repo' ?build) (status_Send t user repo' ?build)
                 = ([StatusSend user repo' ?build], Next ())"
    by (cases "status_Send t user repo' ?build") (simp_all add: logged_def)
  have fs: "fs = Next ()"
  proof (cases fs)
    case (Next u)
    then show ?thesis by simp
  next
    case (Return b' e')
    then have "b' = None"
      using snd_schedule_stages_Return[of t ?stages b' e'] sched by simp
    with Return show ?thesis
      using assms matched inc create logged1 sched
      by (simp add: dispatch_def Let_def fatal_Ok andThen_Next andThen_Return)
  next
    case Panicked
    then show ?thesis
      using assms matched inc create logged1 sched
      by (simp add: dispatch_def Let_def fatal_Ok andThen_Next andThen_Panicked)
  qed
  have run: "fst (dispatch X t repo user base data manifest)
          = [ReposIncrement repo, BuildsCreate ?build ?stages, StatusSend user repo' ?build]
              @ trs @ fst (logged (HooksSend ?payload) (hooks_Send t ?payload))"
    using matched inc create logged1 sched fs
    by (simp add: dispatch_def Let_def fatal_Ok andThen_Next fst_andThen fst_logged split: flow.splits)
  have trs: "scheduled trs
       = filter (\<lambda>stage. Stage_DependsOn stage = [] \<and> Stage_Status stage \<noteq> StatusBlocked) ?stages"
    "persisted trs = []"
    using schedule_stages_Next[of t ?stages "()"] sched fs by simp_all
  show ?thesis
    unfolding run
    by (simp add: scheduled_append persisted_append trs fst_logged make_stages_filter)
qed

text \<open>
  Claim C2. In an invocation that returns a build and a nil error, the stages handed to the
  scheduler are, in order, exactly the stages handed to the build store that are pending and
  depend on nothing.
\<close>

theorem scheduled_exactly_pending:
  assumes "Trigger X t repo base = (tr, Some b, None)"
  shows "scheduled tr
           = filter (\<lambda>stage. Stage_Status stage = StatusPending \<and> Stage_DependsOn stage = [])
               (persisted tr)"
proof -
  have body: "Trigger_body X t repo base = (tr, Return (Some b) None)"
    using assms by (auto simp add: Trigger_def split: prod.splits flow.splits)
  then obtain user base1 data where reach: "reaches_parser X t repo base user base1 data"
    using Trigger_body_early[of X t repo base b None] by fastforce
  let ?pre = "calls_before_parser X t repo base user base1"
  let ?m = "Trigger_manifest X t repo user base1 data"
  have tr: "tr = ?pre @ fst ?m" and m: "snd ?m = Return (Some b) None"
    using body Trigger_body_reaches[OF reach] by simp_all
  have pre: "scheduled ?pre = []" "persisted ?pre = []"
    using finder_quiet[of ?pre] finder_calls_before_parser[of _ X t repo base user base1]
    by simp_all
  have "scheduled (fst ?m)
          = filter (\<lambda>stage. Stage_Status stage = StatusPending \<and> Stage_DependsOn stage = [])
              (persisted (fst ?m))"
    using m unfolding Trigger_manifest_def
    by (auto simp add: createBuildError_quiet split: sum.splits option.splits
          dest: dispatch_Some)
  then show ?thesis
    unfolding tr by (simp add: scheduled_append persisted_append pre)
qed

section \<open>Properties of the webhook sender\<close>





section \<open>The concrete setting, evaluated\<close>

lemma example_not_gated: "\<not> gated example_externals example_repo example_hook"
  by (simp add: gated_def example_externals_def example_hook_def EventPullRequest_def)

lemma example_augment:
  "augment t user repo example_hook = ([], Next example_hook)"
  by (simp add: augment_def example_hook_def)

lemma example_reaches:
  "reaches_parser example_externals example_triggerer example_repo example_hook
     example_user example_hook ''kind: pipeline''"
  unfolding reaches_parser_def
  by (simp add: example_not_gated example_augment)
    (simp add: example_triggerer_def example_repo_def example_user_def example_externals_def)

lemma example_calls_before_parser:
  "calls_before_parser example_externals t example_repo example_hook example_user example_hook
     = [UsersFind 1, ConfigFind example_user example_repo example_draft]"
  by (simp add: calls_before_parser_def example_augment example_draft_def)
    (simp add: example_repo_def)

lemma example_matched:
  "match_pipelines example_externals example_repo example_hook
     (Manifest_Resources example_manifest) = [pipeline_A, pipeline_B]"
  by (simp add: example_manifest_def example_externals_def example_hook_def pipeline_A_def
        pipeline_B_def)

lemma example_verify:
  "verify example_externals example_repo example_hook data = True"
  by (simp add: verify_def example_repo_def)

lemma example_increment: "repos_Increment example_triggerer example_repo = Ok example_repo'"
  by (simp add: example_triggerer_def example_repo'_def example_repo_def)

lemma example_collaborators:
  "builds_Create example_triggerer b stages = Ok ()"
  "status_Send example_triggerer user repo b = Ok ()"
  "sched_Schedule example_triggerer stage = Ok ()"
  "hooks_Send example_triggerer payload = Ok ()"
  by (simp_all add: example_triggerer_def)

lemma example_parse:
  "yaml_ParseString example_externals ''kind: pipeline'' = Inr example_manifest"
  "yaml_ParseString example_externals '':::'' = Inl (GoError ''yaml: did not find expected key'')"
  "linter_Manifest example_externals m trusted = None"
  by (simp_all add: example_externals_def)

lemma example_stage_facts:
  "Stage_DependsOn (new_stage example_externals example_repo' True 0 pipeline_A) = []"
  "Stage_Status (new_stage example_externals example_repo' True 0 pipeline_A) = StatusPending"
  "Stage_DependsOn (new_stage example_externals example_repo' True (Suc 0) pipeline_B) = [''A'']"
  "Stage_Status (new_stage example_externals example_repo' True (Suc 0) pipeline_B) = StatusWaiting"
  by (simp_all add: new_stage_DependsOn new_stage_Status pipeline_A_def pipeline_B_def)

lemma example_stages_eq:
  "example_stages = [new_stage example_externals example_repo' True 0 pipeline_A,
                     new_stage example_externals example_repo' True (Suc 0) pipeline_B]"
  by (simp add: example_stages_def)

lemma example_schedule:
  "schedule_stages example_triggerer example_stages
     = ([SchedSchedule (new_stage example_externals example_repo' True 0 pipeline_A)], Next ())"
  unfolding example_stages_eq
  by (simp add: example_stage_facts example_collaborators fatal_Ok andThen_Next)

lemma example_dispatch:
  "dispatch example_externals example_triggerer example_repo example_user example_hook
     ''kind: pipeline'' example_manifest
   = (drop 2 example_trace, Return (Some example_build) None)"
  unfolding dispatch_def Let_def example_matched example_verify example_increment
    example_trace_def example_build_def example_stages_eq
  by (simp add: example_collaborators example_stage_facts fatal_Ok logged_def andThen_Next)

lemma example_run:
  "Trigger example_externals example_triggerer example_repo example_hook
     = (example_trace, Some example_build, None)"
proof -
  have "Trigger_manifest example_externals example_triggerer example_repo example_user
          example_hook ''kind: pipeline''
        = (drop 2 example_trace, Return (Some example_build) None)"
    by (simp add: Trigger_manifest_def example_parse example_dispatch)
  from Trigger_reaches[OF example_reaches this] show ?thesis
    by (simp add: example_calls_before_parser example_trace_def)
qed

subsection \<open>The claims on the concrete setting\<close>

lemma example_Create:
  "BuildsCreate example_build example_stages
     \<in> set (fst (Trigger example_externals example_triggerer example_repo example_hook))"
  by (simp add: example_run example_trace_def)

text \<open>Claim C1 on the stage of pipeline \<open>B\<close> of the concrete setting (scenario 3).\<close>

theorem stage_initial_status_witness:
  "BuildsCreate example_build example_stages
     \<in> set (fst (Trigger example_externals example_triggerer example_repo example_hook))
   \<and> new_stage example_externals example_repo' True (Suc 0) pipeline_B \<in> set example_stages
   \<and> (\<exists>user base1 data.
         reaches_parser example_externals example_triggerer example_repo example_hook
           user base1 data
       \<and> Stage_Status (new_stage example_externals example_repo' True (Suc 0) pipeline_B) =
           (if verify example_externals example_repo base1 data = False then StatusBlocked
            else if Stage_DependsOn (new_stage example_externals example_repo' True (Suc 0)
                      pipeline_B) = []
            then StatusPending
            else StatusWaiting))
   \<and> Stage_Status (new_stage example_externals example_repo' True (Suc 0) pipeline_B)
       = StatusWaiting"
proof -
  have member: "new_stage example_externals example_repo' True (Suc 0) pipeline_B
                  \<in> set example_stages"
    by (simp add: example_stages_eq)
  from stage_initial_status[OF example_Create member] example_Create member
    example_stage_facts(4)
  show ?thesis
    by blast
qed

text \<open>Claim C2 on the concrete setting: only the stage of pipeline \<open>A\<close> is scheduled.\<close>

theorem scheduled_exactly_pending_witness:
  "Trigger example_externals example_triggerer example_repo example_hook
     = (example_trace, Some example_build, None)
   \<and> scheduled example_trace
       = filter (\<lambda>stage. Stage_Status stage = StatusPending \<and> Stage_DependsOn stage = [])
           (persisted example_trace)
   \<and> scheduled example_trace = [new_stage example_externals example_repo' True 0 pipeline_A]
   \<and> persisted example_trace = example_stages"
proof -
  have "scheduled example_trace = [new_stage example_externals example_repo' True 0 pipeline_A]"
    "persisted example_trace = example_stages"
    by (simp_all add: example_trace_def)
  with scheduled_exactly_pending[OF example_run] example_run show ?thesis
    by blast
qed

lemma broken_reaches:
  "reaches_parser example_externals broken_triggerer example_repo example_hook
     example_user example_hook '':::''"
  unfolding reaches_parser_def
  by (simp add: example_not_gated example_augment)
    (simp add: broken_triggerer_def example_triggerer_def example_repo_def example_user_def
       example_externals_def)

lemma broken_collaborators:
  "repos_Increment broken_triggerer example_repo = Ok example_repo'"
  "builds_Create broken_triggerer b stages = Ok ()"
  by (simp_all add: broken_triggerer_def example_triggerer_def example_repo'_def example_repo_def)

text \<open>The amended claim C3 on the setting whose configuration does not parse (scenario 4).\<close>

theorem Trigger_error_build_witness:
  "reaches_parser example_externals broken_triggerer example_repo example_hook
     example_user example_hook '':::''
   \<and> yaml_ParseString example_externals '':::'' = Inl (GoError ''yaml: did not find expected key'')
   \<and> repos_Increment broken_triggerer example_repo = Ok example_repo'
   \<and> builds_Create broken_triggerer
        (error_build example_externals example_repo' example_hook
           ''yaml: did not find expected key'') [] = Ok ()
   \<and> Trigger example_externals broken_triggerer example_repo example_hook =
        ([UsersFind 1, ConfigFind example_user example_repo example_draft,
          ReposIncrement example_repo,
          BuildsCreate (error_build example_externals example_repo' example_hook
             ''yaml: did not find expected key'') []],
         Some (error_build example_externals example_repo' example_hook
             ''yaml: did not find expected key''), None)
   \<and> Build_Status (error_build example_externals example_repo' example_hook
        ''yaml: did not find expected key'') = StatusError
   \<and> Build_Error (error_build example_externals example_repo' example_hook
        ''yaml: did not find expected key'') = ''yaml: did not find expected key''
   \<and> Build_Finished (error_build example_externals example_repo' example_hook
        ''yaml: did not find expected key'') = 1500000004"
proof -
  have parse: "yaml_ParseString example_externals '':::''
                 = Inl (GoError ''yaml: did not find expected key'')
               \<or> (\<exists>manifest. yaml_ParseString example_externals '':::'' = Inr manifest
                    \<and> linter_Manifest example_externals manifest (Repo_Trusted example_repo)
                        = Some (GoError ''yaml: did not find expected key''))"
    by (simp add: example_parse)
  have create: "builds_Create broken_triggerer
        (error_build example_externals example_repo' example_hook
           (Error_message (GoError ''yaml: did not find expected key''))) [] = Ok ()"
    by (rule broken_collaborators)
  have now: "time_Now example_externals 4 = 1500000004"
    by (simp add: example_externals_def)
  from Trigger_error_build[OF broken_reaches parse broken_collaborators(1) create]
  show ?thesis
    using broken_reaches example_parse(2) broken_collaborators now
    by (simp add: example_calls_before_parser)
qed

lemma locked_reaches:
  "reaches_parser example_externals locked_triggerer example_repo example_hook
     example_user example_hook '':::''"
  unfolding reaches_parser_def
  by (simp add: example_not_gated example_augment)
    (simp add: locked_triggerer_def broken_triggerer_def example_triggerer_def example_repo_def
       example_user_def example_externals_def)

text \<open>
  Claim C3 as stated fails where the repository store cannot increment the counter: the
  manifest does not parse, yet nothing is handed to the build store, and the invocation
  returns no build and the error of the store (lines 436-439).
\<close>

theorem Trigger_error_build_counterexample:
  "config_Find locked_triggerer example_user example_repo example_draft
     = Ok \<lparr> Config_Data = '':::'' \<rparr>
   \<and> yaml_ParseString example_externals '':::'' = Inl (GoError ''yaml: did not find expected key'')
   \<and> Trigger example_externals locked_triggerer example_repo example_hook =
        ([UsersFind 1, ConfigFind example_user example_repo example_draft,
          ReposIncrement example_repo],
         None, Some (GoError ''database is locked''))"
proof -
  have "Trigger_manifest example_externals locked_triggerer example_repo example_user
          example_hook '':::''
        = ([ReposIncrement example_repo], Return None (Some (GoError ''database is locked'')))"
    by (simp add: Trigger_manifest_def example_parse createBuildError_def locked_triggerer_def
          fatal_Fail andThen_Return)
  from Trigger_reaches[OF locked_reaches this] show ?thesis
    by (simp add: example_calls_before_parser example_parse)
      (simp add: locked_triggerer_def broken_triggerer_def)
qed

lemma decode_bytes_ascii:
  "a < 0x80 \<Longrightarrow> decode_bytes (replicate n a @ bs) = replicate n a @ decode_bytes bs"
  by (induction n) simp_all

lemma Encode_ascii: "a \<le> 0x7F \<Longrightarrow> concat (replicate n (EncodeRune a)) = replicate n a"
  by (induction n) (simp_all add: EncodeRune_def)

lemma graphemes_replicate:
  "\<not> Extend a \<Longrightarrow> graphemes (a # replicate n a @ rs) = replicate n [a] @ graphemes (a # rs)"
  by (induction n) simp_all

lemma replicate_2000: "replicate 2000 x = x # replicate 1999 x"
proof -
  have "(2000::nat) = Suc 1999"
    by simp
  then show ?thesis
    by (simp only: replicate_Suc)
qed

lemma runes_of_accented_title: "runes_of accented_title = replicate 2000 0x61 @ [0x301]"
proof -
  have "map of_char accented_title = replicate 2000 (0x61 :: nat) @ [0xCC, 0x81]"
    by (simp add: accented_title_def)
  moreover have "decode_bytes [0xCC, 0x81] = [0x301]"
    by (simp add: continuation_def)
  ultimately show ?thesis
    by (simp add: runes_of_def decode_bytes_ascii)
qed

lemma trunc_accented_title: "trunc accented_title 2000 = replicate 2000 (CHR ''a'')"
proof -
  have "of_char (CHR ''a'') = (0x61 :: nat)"
    by simp
  then have "char_of (0x61 :: nat) = CHR ''a''"
    by (metis char_of_char)
  then have "string_of (replicate 2000 0x61) = replicate 2000 (CHR ''a'')"
    by (simp add: string_of_def Encode_ascii)
  then show ?thesis
    by (simp add: trunc_def runes_of_accented_title)
qed

lemma runes_of_letters: "runes_of (replicate n (CHR ''a'')) = replicate n 0x61"
  using decode_bytes_ascii[of "0x61" n "[]"] by (simp add: runes_of_def)

text \<open>
  Claim C4 as stated fails on a title of 2000 user-perceived characters whose last one is a
  letter with a combining accent: the text has 2001 code points, so \<^verbatim>\<open>trunc\<close> changes
  it, and it cuts the last cluster, leaving the bare letter.
\<close>

theorem trunc_grapheme_counterexample:
  "length (graphemes (runes_of accented_title)) = 2000
   \<and> last (graphemes (runes_of accented_title)) = [0x61, 0x301]
   \<and> trunc accented_title 2000 = replicate 2000 (CHR ''a'')
   \<and> trunc accented_title 2000 \<noteq> accented_title
   \<and> last (graphemes (runes_of (trunc accented_title 2000))) = [0x61]"
proof -
  have a: "\<not> Extend 0x61" and e: "Extend 0x301"
    by (simp_all add: Extend_def)
  have "graphemes (0x61 # replicate 1999 0x61 @ [0x301])
          = replicate 1999 [0x61] @ graphemes [0x61, 0x301]"
    by (rule graphemes_replicate[OF a])
  then have g1: "graphemes (runes_of accented_title) = replicate 1999 [0x61] @ [[0x61, 0x301]]"
    using e by (simp add: runes_of_accented_title replicate_2000)
  have "runes_of (trunc accented_title 2000) = replicate 2000 0x61"
    by (simp only: trunc_accented_title runes_of_letters)
  then have "runes_of (trunc accented_title 2000) = 0x61 # replicate 1999 0x61 @ []"
    by (simp only: replicate_2000 append_Nil2)
  then have g2: "graphemes (runes_of (trunc accented_title 2000))
                   = replicate 1999 [0x61] @ [[0x61]]"
    using graphemes_replicate[OF a, of 1999 "[]"] by simp
  have "length (trunc accented_title 2000) = 2000" "length accented_title = 2002"
    by (simp_all add: trunc_accented_title) (simp add: accented_title_def)
  then have ne: "trunc accented_title 2000 \<noteq> accented_title"
    by auto
  have "length (graphemes (runes_of accented_title)) = 2000"
    "last (graphemes (runes_of accented_title)) = [0x61, 0x301]"
    "last (graphemes (runes_of (trunc accented_title 2000))) = [0x61]"
    by (simp_all add: g1 g2)
  with ne trunc_accented_title show ?thesis
    by blast
qed

lemma decode_bytes_e_acute:
  "decode_bytes (concat (replicate n [0xC3, 0xA9]) @ bs) = replicate n 0xE9 @ decode_bytes bs"
  by (induction n) (simp_all add: continuation_def)

lemma runes_of_accented_message: "runes_of accented_message = replicate 2001 0xE9"
proof -
  have "map of_char accented_message = concat (replicate 2001 [0xC3, 0xA9 :: nat])"
    by (simp add: accented_message_def map_concat)
  then show ?thesis
    using decode_bytes_e_acute[of 2001 "[]"] by (simp add: runes_of_def)
qed

lemma trunc_accented_message:
  "trunc accented_message 2000 = concat (replicate 2000 [CHR 0xC3, CHR 0xA9])"
proof -
  have "of_char (CHR 0xC3) = (0xC3 :: nat)" "of_char (CHR 0xA9) = (0xA9 :: nat)"
    by simp_all
  then have chars: "char_of (0xC3 :: nat) = CHR 0xC3" "char_of (0xA9 :: nat) = CHR 0xA9"
    by (metis char_of_char)+
  have "EncodeRune 0xE9 = [0xC3, 0xA9]"
    by (simp add: EncodeRune_def)
  then have "string_of (replicate 2000 0xE9) = concat (replicate 2000 [CHR 0xC3, CHR 0xA9])"
    by (simp add: string_of_def map_concat chars)
  then show ?thesis
    by (simp add: trunc_def runes_of_accented_message)
qed

lemma long_augment:
  "augment long_triggerer example_user example_repo long_hook
     = ([CommitsFind example_user ''octocat/hello'' ''a1b2c3''], Next long_hook')"
  by (simp add: augment_def long_triggerer_def long_hook_def long_hook'_def long_commit_def
        example_hook_def example_repo_def)

lemma long_reaches:
  "reaches_parser example_externals long_triggerer example_repo long_hook
     example_user long_hook' ''kind: pipeline''"
proof -
  have "\<not> gated example_externals example_repo long_hook"
    by (simp add: gated_def example_externals_def long_hook_def example_hook_def
          EventPullRequest_def)
  then show ?thesis
    unfolding reaches_parser_def long_augment
    by (simp add: long_triggerer_def example_triggerer_def example_repo_def example_user_def
          example_externals_def)
qed

lemma long_matched:
  "match_pipelines example_externals example_repo long_hook'
     (Manifest_Resources example_manifest) = [pipeline_A, pipeline_B]"
  by (simp add: example_manifest_def example_externals_def long_hook'_def long_hook_def
        example_hook_def pipeline_A_def pipeline_B_def)

lemma long_Create:
  "BuildsCreate long_build example_stages
     \<in> set (fst (Trigger example_externals long_triggerer example_repo long_hook))"
proof -
  have inc: "repos_Increment long_triggerer example_repo = Ok example_repo'"
    by (simp add: long_triggerer_def example_triggerer_def example_repo'_def example_repo_def)
  have verified: "verify example_externals example_repo long_hook' ''kind: pipeline'' = True"
    by (simp add: verify_def example_repo_def)
  have "BuildsCreate long_build example_stages
          \<in> set (fst (dispatch example_externals long_triggerer example_repo example_user
                long_hook' ''kind: pipeline'' example_manifest))"
    unfolding dispatch_def Let_def long_matched verified inc fatal_Ok andThen_Next
    by (simp add: long_build_def example_stages_def fst_andThen fst_fatal)
  then have "BuildsCreate long_build example_stages
          \<in> set (fst (Trigger_manifest example_externals long_triggerer example_repo
                example_user long_hook' ''kind: pipeline''))"
    by (simp add: Trigger_manifest_def example_parse)
  then have "BuildsCreate long_build example_stages
          \<in> set (fst (Trigger_body example_externals long_triggerer example_repo long_hook))"
    by (simp add: Trigger_body_reaches[OF long_reaches])
  then show ?thesis
    by (auto simp add: Trigger_def split: prod.splits flow.splits)
qed

text \<open>
  The amended claim C4 on a hook whose title has 2001 code points and whose message is
  blank and comes from the commit, with 2001 two-byte code points: the title of the build
  is cut to the 2000 letters, losing the accent, and the message of the build is cut to
  2000 code points, which is 4000 bytes, between two encodings and not at byte 2000.
\<close>

theorem title_message_truncated_witness:
  "BuildsCreate long_build example_stages
     \<in> set (fst (Trigger example_externals long_triggerer example_repo long_hook))
   \<and> example_stages \<noteq> []
   \<and> (\<exists>user base1 data.
         reaches_parser example_externals long_triggerer example_repo long_hook user base1 data
       \<and> Hook_Title base1 = Hook_Title long_hook
       \<and> Build_Title long_build = trunc (Hook_Title base1) 2000
       \<and> Build_Message long_build = trunc (Hook_Message base1) 2000
       \<and> runes_of (Build_Title long_build) = take 2000 (runes_of (Hook_Title base1))
       \<and> runes_of (Build_Message long_build) = take 2000 (runes_of (Hook_Message base1))
       \<and> (if length (runes_of (Hook_Title base1)) \<le> 2000
          then Build_Title long_build = Hook_Title base1 else True)
       \<and> (if length (runes_of (Hook_Message base1)) \<le> 2000
          then Build_Message long_build = Hook_Message base1 else True))
   \<and> Hook_Title long_hook = accented_title
   \<and> length (runes_of accented_title) = 2001
   \<and> Build_Title long_build = replicate 2000 (CHR ''a'')
   \<and> Hook_Message long_hook = []
   \<and> Hook_Message long_hook' = accented_message
   \<and> length (runes_of accented_message) = 2001
   \<and> length accented_message = 4002
   \<and> Build_Message long_build = concat (replicate 2000 [CHR 0xC3, CHR 0xA9])
   \<and> length (Build_Message long_build) = 4000
   \<and> runes_of (Build_Message long_build) = replicate 2000 0xE9"
proof -
  have ne: "example_stages \<noteq> []"
    by (simp add: example_stages_eq)
  have title: "Hook_Title long_hook = accented_title" "Hook_Message long_hook = []"
    "Hook_Message long_hook' = accented_message"
    by (simp_all add: long_hook_def long_hook'_def)
  have built: "Build_Title long_build = trunc accented_title 2000"
    "Build_Message long_build = trunc accented_message 2000"
    by (simp_all add: long_build_def new_build_def long_hook_def long_hook'_def)
  have runes_lengths: "length (runes_of accented_title) = 2001"
    "length (runes_of accented_message) = 2001"
    by (simp_all add: runes_of_accented_title runes_of_accented_message)
  have "length accented_message = 4002"
    by (simp add: accented_message_def length_concat sum_list_replicate)
  moreover have "length (trunc accented_message 2000) = 4000"
    by (simp add: trunc_accented_message length_concat sum_list_replicate)
  ultimately have lengths: "length (runes_of accented_title) = 2001"
    "length (runes_of accented_message) = 2001"
    "length accented_message = 4002"
    "length (trunc accented_message 2000) = 4000"
    using runes_lengths by simp_all
  have runes: "runes_of (trunc accented_message 2000) = replicate 2000 0xE9"
    by (simp add: runes_of_trunc runes_of_accented_message)
  from title_message_truncated[OF long_Create ne] long_Create ne title lengths runes
  show ?thesis
    unfolding built trunc_accented_title trunc_accented_message
    by blast
qed

lemma tag_reaches:
  "reaches_parser example_externals example_triggerer example_repo tag_hook
     example_user tag_hook ''kind: pipeline''"
proof -
  have "\<not> gated example_externals example_repo tag_hook"
    by (simp add: gated_def example_externals_def tag_hook_def example_hook_def
          EventPullRequest_def)
  moreover have "augment example_triggerer example_user example_repo tag_hook = ([], Next tag_hook)"
    by (simp add: augment_def tag_hook_def example_hook_def)
  ultimately show ?thesis
    unfolding reaches_parser_def
    by (simp add: example_triggerer_def example_repo_def example_user_def example_externals_def)
qed

lemma tag_matched:
  "match_pipelines example_externals example_repo tag_hook
     (Manifest_Resources example_manifest) = []"
  by (simp add: example_manifest_def example_externals_def tag_hook_def example_hook_def
        pipeline_A_def pipeline_B_def)

text \<open>Claim C5 on a tag event, which no pipeline of the manifest includes (scenario 6).\<close>

theorem Trigger_no_match_witness:
  "reaches_parser example_externals example_triggerer example_repo tag_hook
     example_user tag_hook ''kind: pipeline''
   \<and> yaml_ParseString example_externals ''kind: pipeline'' = Inr example_manifest
   \<and> linter_Manifest example_externals example_manifest (Repo_Trusted example_repo) = None
   \<and> match_pipelines example_externals example_repo tag_hook
        (Manifest_Resources example_manifest) = []
   \<and> Trigger example_externals example_triggerer example_repo tag_hook
       = (calls_before_parser example_externals example_triggerer example_repo tag_hook
            example_user tag_hook, None, None)
   \<and> (\<forall>r. ReposIncrement r
          \<notin> set (fst (Trigger example_externals example_triggerer example_repo tag_hook)))
   \<and> (\<forall>b stages. BuildsCreate b stages
          \<notin> set (fst (Trigger example_externals example_triggerer example_repo tag_hook)))"
  using Trigger_no_match[OF tag_reaches example_parse(1) example_parse(3) tag_matched]
    tag_reaches example_parse(1) example_parse(3) tag_matched
  by blast

text \<open>Claim C6 on the three kinds of gated hook (scenarios 1 and 2, and a fork).\<close>

theorem Trigger_gating_witness:
  "skipMessage example_externals skip_hook
   \<and> Trigger example_externals example_triggerer example_repo skip_hook = ([], None, None)
   \<and> Hook_Event pull_hook = EventPullRequest
   \<and> Repo_IgnorePulls (example_repo\<lparr>Repo_IgnorePulls := True\<rparr>)
   \<and> Trigger example_externals example_triggerer (example_repo\<lparr>Repo_IgnorePulls := True\<rparr>)
        pull_hook = ([], None, None)
   \<and> Repo_IgnoreForks (example_repo\<lparr>Repo_IgnoreForks := True\<rparr>)
   \<and> \<not> strings_EqualFold example_externals (Hook_Fork pull_hook)
          (Repo_Slug (example_repo\<lparr>Repo_IgnoreForks := True\<rparr>))
   \<and> Trigger example_externals example_triggerer (example_repo\<lparr>Repo_IgnoreForks := True\<rparr>)
        pull_hook = ([], None, None)"
proof -
  have skip: "skipMessage example_externals skip_hook"
    by (simp add: example_externals_def skip_hook_def)
  have pull: "Hook_Event pull_hook = EventPullRequest"
    by (simp add: pull_hook_def EventPullRequest_def)
  have ignore: "Repo_IgnorePulls (example_repo\<lparr>Repo_IgnorePulls := True\<rparr>)"
    "Repo_IgnoreForks (example_repo\<lparr>Repo_IgnoreForks := True\<rparr>)"
    by simp_all
  have fork: "\<not> strings_EqualFold example_externals (Hook_Fork pull_hook)
                 (Repo_Slug (example_repo\<lparr>Repo_IgnoreForks := True\<rparr>))"
    by (simp add: example_externals_def pull_hook_def example_repo_def ascii_lower_def)
  from skip pull ignore fork show ?thesis
    using Trigger_gating[of example_externals skip_hook example_repo example_triggerer]
      Trigger_gating[of example_externals pull_hook "example_repo\<lparr>Repo_IgnorePulls := True\<rparr>"
        example_triggerer]
      Trigger_gating[of example_externals pull_hook "example_repo\<lparr>Repo_IgnoreForks := True\<rparr>"
        example_triggerer]
    by blast
qed

text \<open>Claim C7 on the concrete setting.\<close>

theorem stage_trigger_flags_witness:
  "BuildsCreate example_build example_stages
     \<in> set (fst (Trigger example_externals example_triggerer example_repo example_hook))
   \<and> example_stages \<noteq> []
   \<and> (\<exists>user base1 data manifest.
         reaches_parser example_externals example_triggerer example_repo example_hook
           user base1 data
       \<and> yaml_ParseString example_externals data = Inr manifest
       \<and> list_all2 (flags_follow_status example_externals)
           (match_pipelines example_externals example_repo base1 (Manifest_Resources manifest))
           example_stages)"
proof -
  have ne: "example_stages \<noteq> []"
    by (simp add: example_stages_eq)
  from stage_trigger_flags[OF example_Create ne] example_Create ne show ?thesis
    by blast
qed

text \<open>Claim C9 on the setting whose owner is not active.\<close>

theorem Trigger_inactive_owner_witness:
  "users_Find inactive_triggerer (Repo_UserID example_repo)
     = Ok (example_user\<lparr>User_Active := False\<rparr>)
   \<and> User_Active (example_user\<lparr>User_Active := False\<rparr>) = False
   \<and> Trigger example_externals inactive_triggerer example_repo example_hook
       = ([UsersFind 1], None, None)"
proof -
  have find: "users_Find inactive_triggerer (Repo_UserID example_repo)
                = Ok (example_user\<lparr>User_Active := False\<rparr>)"
    by (simp add: inactive_triggerer_def)
  have inactive: "User_Active (example_user\<lparr>User_Active := False\<rparr>) = False"
    by simp
  have "Repo_UserID example_repo = 1"
    by (simp add: example_repo_def)
  with Trigger_inactive_owner[OF find inactive, of example_externals example_hook]
    example_not_gated find
  show ?thesis
    by simp
qed



end
